theory Spec2Isabelle
  imports Complex_Main "HOL-Library.Monad_Syntax"
begin

section \<open>Numbers\<close>

text \<open>
  A JavaScript number is modelled as a \<^typ>\<open>real\<close>: arithmetic is exact, the rounding
  error of IEEE-754 doubles is not part of the model. Where the code can produce a value
  that is no real number (\<^verbatim>\<open>NaN\<close> from \<^verbatim>\<open>parseInt\<close>, from a read past the end of an
  array or from a division by zero) the model has type \<^typ>\<open>real option\<close> and \<open>None\<close>
  stands for that value; arithmetic on it is strict, as arithmetic on \<^verbatim>\<open>NaN\<close> is.

  \<^verbatim>\<open>LinearGradient\<close> is the exception: what it returns is the rounding of an interpolated
  value that can lie exactly between two integers, where the error of the double operations
  decides the direction. There the rounding of each double operation is a parameter \<open>fl\<close> of
  the model. The rounding of IEEE-754 doubles is \<open>double_round\<close> below; the exact arithmetic
  is \<open>fl\<close> the identity.
\<close>

definition Math_round :: "real \<Rightarrow> real" where
  \<comment> \<open>\<^verbatim>\<open>Math.round\<close>: the nearest integer, a tie going up.\<close>
  "Math_round x = of_int \<lfloor>x + 1/2\<rfloor>"

definition fdiv :: "real \<Rightarrow> real \<Rightarrow> real option" where
  \<comment> \<open>A division whose divisor is a variable: by zero it yields \<^verbatim>\<open>NaN\<close> or an infinity.\<close>
  "fdiv a b = (if b = 0 then None else Some (a / b))"

definition toFixed2 :: "real \<Rightarrow> real" where
  \<comment> \<open>\<^verbatim>\<open>Number(x.toFixed(2))\<close>: two decimals, a tie going away from zero.\<close>
  "toFixed2 x = (if x < 0 then - (of_int \<lfloor>- x * 100 + 1/2\<rfloor> / 100)
                 else of_int \<lfloor>x * 100 + 1/2\<rfloor> / 100)"

definition nth_js :: "'a option list \<Rightarrow> nat \<Rightarrow> 'a option" where
  \<comment> \<open>\<^verbatim>\<open>xs[i]\<close> used as a number: past the end it is \<^verbatim>\<open>undefined\<close>, which arithmetic
      turns into \<^verbatim>\<open>NaN\<close>.\<close>
  "nth_js xs i = (if i < length xs then xs ! i else None)"

definition round_even :: "real \<Rightarrow> int" where
  \<comment> \<open>The nearest integer, a tie going to the even one.\<close>
  "round_even x = (let f = \<lfloor>x\<rfloor>; d = x - of_int f in
     if d < 1/2 then f else if 1/2 < d then f + 1 else if even f then f else f + 1)"

function exponent_up :: "nat \<Rightarrow> real \<Rightarrow> int" where
  \<comment> \<open>For \<open>1 \<le> x\<close>: the \<open>e\<close> with \<open>2 ^ e \<le> x < 2 ^ (e + 1)\<close>, up to \<open>fuel\<close>.\<close>
  "exponent_up fuel x = (if fuel = 0 \<or> x < 2 then 0 else exponent_up (fuel - 1) (x / 2) + 1)"
  by pat_completeness auto
termination
  by (relation "measure fst") auto

function exponent_down :: "nat \<Rightarrow> real \<Rightarrow> int" where
  \<comment> \<open>For \<open>0 \<le> x < 1\<close>: the \<open>e\<close> with \<open>2 ^ e \<le> x < 2 ^ (e + 1)\<close>, down to \<open>- fuel\<close>.\<close>
  "exponent_down fuel x = (if fuel = 0 \<or> 1 \<le> x then 0 else exponent_down (fuel - 1) (x * 2) - 1)"
  by pat_completeness auto
termination
  by (relation "measure fst") auto

declare exponent_up.simps [simp del] exponent_down.simps [simp del]

definition exponent :: "real \<Rightarrow> int" where
  \<comment> \<open>The binary exponent of a double: that of the value, from \<open>- 1022\<close> (below it the
      doubles are subnormal and keep this exponent) to \<open>1023\<close>.\<close>
  "exponent x = (if 1 \<le> \<bar>x\<bar> then exponent_up 1023 \<bar>x\<bar> else exponent_down 1022 \<bar>x\<bar>)"

definition pow2 :: "int \<Rightarrow> real" where
  "pow2 e = (if 0 \<le> e then 2 ^ nat e else 1 / 2 ^ nat (- e))"

definition ulp :: "real \<Rightarrow> real" where
  \<comment> \<open>The distance of neighbouring doubles at \<open>x\<close>: 53 significant bits.\<close>
  "ulp x = pow2 (exponent x - 52)"

definition double_round :: "real \<Rightarrow> real" where
  \<comment> \<open>The double nearest to \<open>x\<close>, a tie going to the even significand: the result of a
      double operation \<^verbatim>\<open>+\<close>, \<^verbatim>\<open>-\<close>, \<^verbatim>\<open>*\<close>, \<^verbatim>\<open>/\<close> whose exact result is \<open>x\<close>, as long as
      \<open>x\<close> is below \<open>2 ^ 1024\<close> in magnitude (beyond, the operation yields an infinity).\<close>
  "double_round x = (if x = 0 then 0 else of_int (round_even (x / ulp x)) * ulp x)"

definition roundsLikeDouble :: "(real \<Rightarrow> real) \<Rightarrow> bool" where
  \<comment> \<open>What the statements need of the rounding \<open>fl\<close> of a double operation: an integer up to
      \<open>255\<close> in magnitude is kept, and a value up to \<open>512\<close> in magnitude moves by at most
      \<open>1 / 2 ^ 40\<close>.\<close>
  "roundsLikeDouble fl \<longleftrightarrow>
     (\<forall>k::int. \<bar>k\<bar> \<le> 255 \<longrightarrow> fl (of_int k) = of_int k)
     \<and> (\<forall>x. \<bar>x\<bar> \<le> 512 \<longrightarrow> \<bar>fl x - x\<bar> \<le> 1 / 2 ^ 40)"

datatype error = UserVisibleError string

section \<open>types.ts\<close>

record RGBColor =
  rgb_r :: real
  rgb_g :: real
  rgb_b :: real

record CMYKColor =
  cmyk_c :: real
  cmyk_m :: real
  cmyk_y :: real
  cmyk_k :: real

datatype WCAGLevel = AA | AAA

datatype TextSize = large | small

datatype ColorBlindnessType = protanopia | deuteranopia | tritanopia

record contrast_ratios =
  AA_NORMAL :: real
  AA_LARGE :: real
  AAA_NORMAL :: real
  AAA_LARGE :: real

definition WCAG_CONTRAST_RATIOS :: contrast_ratios where
  "WCAG_CONTRAST_RATIOS =
     \<lparr>AA_NORMAL = 4.5, AA_LARGE = 3.0, AAA_NORMAL = 7.0, AAA_LARGE = 4.5\<rparr>"

section \<open>Hex strings\<close>

text \<open>A \<^typ>\<open>char\<close> is a code unit below 256; colours are written in ASCII.\<close>

definition isHexDigit :: "char \<Rightarrow> bool" where
  "isHexDigit ch \<longleftrightarrow> ch \<in> set ''0123456789ABCDEFabcdef''"

definition isValidHexColor :: "string \<Rightarrow> bool" where
  \<comment> \<open>\<^verbatim>\<open>/^#[0-9A-Fa-f]{6}$/.test(hex)\<close>\<close>
  "isValidHexColor hex =
     (case hex of [] \<Rightarrow> False
      | h # ds \<Rightarrow> h = CHR ''#'' \<and> length ds = 6 \<and> list_all isHexDigit ds)"

definition digitVal :: "char \<Rightarrow> nat" where
  "digitVal ch =
     (let n = of_char ch in
      if 48 \<le> n \<and> n \<le> 57 then n - 48
      else if 97 \<le> n \<and> n \<le> 102 then n - 87
      else n - 55)"

definition isWhiteSpace :: "char \<Rightarrow> bool" where
  \<comment> \<open>The white space \<^verbatim>\<open>parseInt\<close> skips, as far as it lies below 256.\<close>
  "isWhiteSpace ch \<longleftrightarrow> of_char ch \<in> {9, 10, 11, 12, 13, 32, 160 :: nat}"

definition isLineTerminator :: "char \<Rightarrow> bool" where
  \<comment> \<open>The characters the regular expression \<^verbatim>\<open>.\<close> does not match, below 256.\<close>
  "isLineTerminator ch \<longleftrightarrow> of_char ch \<in> {10, 13 :: nat}"

definition parseInt16 :: "string \<Rightarrow> real option" where
  \<comment> \<open>\<^verbatim>\<open>parseInt(x, 16)\<close>: white space, a sign and \<^verbatim>\<open>0x\<close> are skipped, then the longest
      run of hex digits is read; no digit gives \<^verbatim>\<open>NaN\<close>.\<close>
  "parseInt16 x =
     (let t = dropWhile isWhiteSpace x;
          sgn = (if take 1 t = ''-'' then - 1 else 1);
          u = (if take 1 t = ''-'' \<or> take 1 t = ''+'' then drop 1 t else t);
          v = (if take 2 u = ''0x'' \<or> take 2 u = ''0X'' then drop 2 u else u);
          ds = takeWhile isHexDigit v
      in if ds = [] then None
         else Some (sgn * real (foldl (\<lambda>a d. 16 * a + digitVal d) 0 ds)))"

fun match2 :: "string \<Rightarrow> string list" where
  \<comment> \<open>\<^verbatim>\<open>s.match(/.{2}/g)\<close>: the pairs of characters met from left to right; the empty
      list stands for \<^verbatim>\<open>null\<close>.\<close>
  "match2 (a # b # rest) =
     (if isLineTerminator a \<or> isLineTerminator b then match2 (b # rest)
      else [a, b] # match2 rest)"
| "match2 _ = []"

definition hexToRgb :: "string \<Rightarrow> real option list" where
  "hexToRgb hex =
     (let s = (if take 1 hex = ''#'' then drop 1 hex else hex);
          ms = match2 s
      in if ms = [] then [Some 0, Some 0, Some 0] else map parseInt16 ms)"

definition digitChar :: "nat \<Rightarrow> char" where
  "digitChar n = (if n < 10 then char_of (48 + n) else char_of (87 + n))"

fun hexDigits :: "nat \<Rightarrow> string" where
  "hexDigits n = (if n < 16 then [digitChar n] else hexDigits (n div 16) @ [digitChar (n mod 16)])"

declare hexDigits.simps [simp del]

definition toString16 :: "real \<Rightarrow> string" where
  \<comment> \<open>\<^verbatim>\<open>n.toString(16)\<close> of an integer \<open>n\<close>; the code applies it to results of
      \<^verbatim>\<open>Math.round\<close> only.\<close>
  "toString16 x =
     (let n = \<lfloor>x\<rfloor> in if n < 0 then CHR ''-'' # hexDigits (nat (- n)) else hexDigits (nat n))"

definition padStart2 :: "string \<Rightarrow> string" where
  \<comment> \<open>\<^verbatim>\<open>s.padStart(2, '0')\<close>\<close>
  "padStart2 s = replicate (2 - length s) (CHR ''0'') @ s"

definition rgbToHex :: "real option list \<Rightarrow> string" where
  "rgbToHex rgb =
     CHR ''#'' # concat (map (\<lambda>x. padStart2 (case x of None \<Rightarrow> ''NaN''
                                                | Some v \<Rightarrow> toString16 (Math_round v))) rgb)"

section \<open>helpers.ts\<close>

definition isValidHsluv :: "real \<Rightarrow> real \<Rightarrow> real \<Rightarrow> bool" where
  "isValidHsluv h s l \<longleftrightarrow> h \<ge> 0 \<and> h \<le> 360 \<and> s \<ge> 0 \<and> s \<le> 100 \<and> l \<ge> 0 \<and> l \<le> 100"

definition isValidHpluv :: "real \<Rightarrow> real \<Rightarrow> real \<Rightarrow> bool" where
  "isValidHpluv h p l \<longleftrightarrow> h \<ge> 0 \<and> h \<le> 360 \<and> p \<ge> 0 \<and> p \<le> 100 \<and> l \<ge> 0 \<and> l \<le> 100"

definition isValidRgb :: "real \<Rightarrow> real \<Rightarrow> real \<Rightarrow> bool" where
  "isValidRgb r g b \<longleftrightarrow> r \<ge> 0 \<and> r \<le> 255 \<and> g \<ge> 0 \<and> g \<le> 255 \<and> b \<ge> 0 \<and> b \<le> 255"

definition linearize :: "real \<Rightarrow> real" where
  \<comment> \<open>The second \<^verbatim>\<open>map\<close> of \<^verbatim>\<open>getLuminance\<close>.\<close>
  "linearize x = (if x \<le> 0.03928 then x / 12.92 else ((x + 0.055) / 1.055) powr 2.4)"

definition getLuminance :: "string \<Rightarrow> real option" where
  "getLuminance hex =
     (let rgb = map (map_option (\<lambda>x. x / 255)) (hexToRgb hex);
          rgb = map (map_option linearize) rgb
      in do {
        r \<leftarrow> nth_js rgb 0;
        g \<leftarrow> nth_js rgb 1;
        b \<leftarrow> nth_js rgb 2;
        Some (0.2126 * r + 0.7152 * g + 0.0722 * b)
      })"

definition calculateContrastRatio :: "string \<Rightarrow> string \<Rightarrow> real option" where
  "calculateContrastRatio color1 color2 =
     do {
       l1 \<leftarrow> getLuminance color1;
       l2 \<leftarrow> getLuminance color2;
       ratio \<leftarrow> fdiv (max l1 l2 + 0.05) (min l1 l2 + 0.05);
       Some (toFixed2 ratio)
     }"



definition rgbToCmyk :: "real \<Rightarrow> real \<Rightarrow> real \<Rightarrow> CMYKColor option" where
  "rgbToCmyk r g b =
     (let c = 1 - r / 255; m = 1 - g / 255; y = 1 - b / 255;
          k = min c (min m y)
      in if k = 1 then Some \<lparr>cmyk_c = 0, cmyk_m = 0, cmyk_y = 0, cmyk_k = 1\<rparr>
         else do {
           c' \<leftarrow> fdiv (c - k) (1 - k);
           m' \<leftarrow> fdiv (m - k) (1 - k);
           y' \<leftarrow> fdiv (y - k) (1 - k);
           Some \<lparr>cmyk_c = Math_round (c' * 100) / 100,
                 cmyk_m = Math_round (m' * 100) / 100,
                 cmyk_y = Math_round (y' * 100) / 100,
                 cmyk_k = Math_round (k * 100) / 100\<rparr>
         })"

definition cmykToRgb :: "real \<Rightarrow> real \<Rightarrow> real \<Rightarrow> real \<Rightarrow> RGBColor" where
  "cmykToRgb c m y k =
     (let r = 255 * (1 - c) * (1 - k);
          g = 255 * (1 - m) * (1 - k);
          b = 255 * (1 - y) * (1 - k)
      in \<lparr>rgb_r = Math_round r, rgb_g = Math_round g, rgb_b = Math_round b\<rparr>)"

definition cmyk_round_trip :: "real \<Rightarrow> real \<Rightarrow> real \<Rightarrow> RGBColor option" where
  \<comment> \<open>The composition \<^verbatim>\<open>cmykToRgb(rgbToCmyk(r, g, b))\<close>.\<close>
  "cmyk_round_trip r g b =
     map_option (\<lambda>q. cmykToRgb (cmyk_c q) (cmyk_m q) (cmyk_y q) (cmyk_k q)) (rgbToCmyk r g b)"

definition matrices :: "ColorBlindnessType \<Rightarrow> real list list" where
  "matrices type =
     (case type of
        protanopia \<Rightarrow> [[0.567, 0.433, 0], [0.558, 0.442, 0], [0, 0.242, 0.758]]
      | deuteranopia \<Rightarrow> [[0.625, 0.375, 0], [0.7, 0.3, 0], [0, 0.3, 0.7]]
      | tritanopia \<Rightarrow> [[0.95, 0.05, 0], [0, 0.433, 0.567], [0, 0.475, 0.525]])"

definition simulateColorBlindness :: "real option list \<Rightarrow> ColorBlindnessType \<Rightarrow> real option list" where
  "simulateColorBlindness rgb type =
     (let matrix = matrices type;
          row = (\<lambda>i. do {
            r \<leftarrow> nth_js rgb 0;
            g \<leftarrow> nth_js rgb 1;
            b \<leftarrow> nth_js rgb 2;
            Some (r * matrix ! i ! 0 + g * matrix ! i ! 1 + b * matrix ! i ! 2)
          })
      in map (map_option Math_round) [row 0, row 1, row 2])"

definition checkAccessibility :: "string \<Rightarrow> string \<Rightarrow> WCAGLevel \<Rightarrow> TextSize \<Rightarrow> bool" where
  \<comment> \<open>A comparison with \<^verbatim>\<open>NaN\<close> is false. The last \<^verbatim>\<open>return false\<close> of the source is not
      reached by a level of type \<^verbatim>\<open>WCAGLevel\<close>. The parameter \<^verbatim>\<open>size\<close> is \<open>tsize\<close> here.\<close>
  "checkAccessibility foreground background level tsize =
     (let ratio = calculateContrastRatio foreground background;
          ge = (\<lambda>t. case ratio of None \<Rightarrow> False | Some x \<Rightarrow> x \<ge> t)
      in case level of
           AA \<Rightarrow> (if tsize = large then ge (AA_LARGE WCAG_CONTRAST_RATIOS)
                  else ge (AA_NORMAL WCAG_CONTRAST_RATIOS))
         | AAA \<Rightarrow> (if tsize = large then ge (AAA_LARGE WCAG_CONTRAST_RATIOS)
                   else ge (AAA_NORMAL WCAG_CONTRAST_RATIOS)))"

definition harmonyOfHues :: "real \<Rightarrow> real \<Rightarrow> string" where
  \<comment> \<open>\<^verbatim>\<open>evaluateColorHarmony\<close> from the two hues on: the classification of their
      difference.\<close>
  "harmonyOfHues h1 h2 =
     (let hueDiff = \<bar>h1 - h2\<bar>;
          hueDiff = (if hueDiff > 180 then 360 - hueDiff else hueDiff)
      in if hueDiff < 30 then ''Analogous (harmonious)''
         else if \<bar>hueDiff - 180\<bar> < 30 then ''Complementary (high contrast)''
         else if \<bar>hueDiff - 120\<bar> < 30 then ''Triadic (balanced)''
         else if \<bar>hueDiff - 90\<bar> < 30 then ''Square (vibrant)''
         else ''Discordant (use with caution)'')"

section \<open>The hsluv package\<close>

text \<open>
  The conversions between hex strings and the HSLuv and HPLuv models are the methods of the
  class \<^verbatim>\<open>Hsluv\<close> of the npm package \<^verbatim>\<open>hsluv\<close>, which is not part of the repository. An object
  of the class is a record of the fields the repository reads and writes; the package is a
  parameter: a fresh object and one state transformer for each method that is called.
\<close>

record Hsluv =
  hex :: string
  hsluv_h :: real
  hsluv_s :: real
  hsluv_l :: real
  hpluv_h :: real
  hpluv_p :: real
  hpluv_l :: real

record hsluv_package =
  new_Hsluv :: Hsluv
  hexToHsluv :: "Hsluv \<Rightarrow> Hsluv"
  hsluvToHex :: "Hsluv \<Rightarrow> Hsluv"
  hexToHpluv :: "Hsluv \<Rightarrow> Hsluv"
  hpluvToHex :: "Hsluv \<Rightarrow> Hsluv"

definition evaluateColorHarmony :: "hsluv_package \<Rightarrow> string \<Rightarrow> string \<Rightarrow> string" where
  "evaluateColorHarmony pkg color1 color2 =
     (let hsluv1 = new_Hsluv pkg;
          hsluv2 = new_Hsluv pkg;
          hsluv1 = hsluv1\<lparr>hex := color1\<rparr>;
          hsluv2 = hsluv2\<lparr>hex := color2\<rparr>;
          hsluv1 = hexToHsluv pkg hsluv1;
          hsluv2 = hexToHsluv pkg hsluv2
      in harmonyOfHues (hsluv_h hsluv1) (hsluv_h hsluv2))"

section \<open>pack.ts\<close>

record HSLuvColor =
  HSLuvColor_h :: real
  HSLuvColor_s :: real
  HSLuvColor_l :: real

record HPLuvColor =
  HPLuvColor_h :: real
  HPLuvColor_p :: real
  HPLuvColor_l :: real

definition HexToHsluv :: "hsluv_package \<Rightarrow> string \<Rightarrow> error + HSLuvColor" where
  "HexToHsluv pkg hexColor =
     (if \<not> isValidHexColor hexColor
      then Inl (UserVisibleError ''Invalid hex color format. Please use #RRGGBB format.'')
      else
        let color = new_Hsluv pkg;
            color = color\<lparr>hex := hexColor\<rparr>;
            color = hexToHsluv pkg color
        in Inr \<lparr>HSLuvColor_h = Math_round (hsluv_h color * 100) / 100,
                HSLuvColor_s = Math_round (hsluv_s color * 100) / 100,
                HSLuvColor_l = Math_round (hsluv_l color * 100) / 100\<rparr>)"

definition HexToHpluv :: "hsluv_package \<Rightarrow> string \<Rightarrow> error + HPLuvColor" where
  "HexToHpluv pkg hexColor =
     (if \<not> isValidHexColor hexColor
      then Inl (UserVisibleError ''Invalid hex color format. Please use #RRGGBB format.'')
      else
        let color = new_Hsluv pkg;
            color = color\<lparr>hex := hexColor\<rparr>;
            color = hexToHpluv pkg color
        in Inr \<lparr>HPLuvColor_h = Math_round (hpluv_h color * 100) / 100,
                HPLuvColor_p = Math_round (hpluv_p color * 100) / 100,
                HPLuvColor_l = Math_round (hpluv_l color * 100) / 100\<rparr>)"

definition HsluvToHex :: "hsluv_package \<Rightarrow> real \<Rightarrow> real \<Rightarrow> real \<Rightarrow> error + string" where
  "HsluvToHex pkg h s l =
     (if \<not> isValidHsluv h s l
      then Inl (UserVisibleError
        ''Invalid HSLuv values. Hue: 0-360, Saturation and Lightness: 0-100.'')
      else
        let color = new_Hsluv pkg;
            color = color\<lparr>hsluv_h := h\<rparr>;
            color = color\<lparr>hsluv_s := s\<rparr>;
            color = color\<lparr>hsluv_l := l\<rparr>;
            color = hsluvToHex pkg color
        in Inr (hex color))"

definition HpluvToHex :: "hsluv_package \<Rightarrow> real \<Rightarrow> real \<Rightarrow> real \<Rightarrow> error + string" where
  "HpluvToHex pkg h p l =
     (if \<not> isValidHpluv h p l
      then Inl (UserVisibleError
        ''Invalid HPLuv values. Hue: 0-360, Percent and Lightness: 0-100.'')
      else
        let color = new_Hsluv pkg;
            color = color\<lparr>hpluv_h := h\<rparr>;
            color = color\<lparr>hpluv_p := p\<rparr>;
            color = color\<lparr>hpluv_l := l\<rparr>;
            color = hpluvToHex pkg color
        in Inr (hex color))"

definition hsluv_round_trip :: "hsluv_package \<Rightarrow> string \<Rightarrow> error + string" where
  \<comment> \<open>The composition \<^verbatim>\<open>HsluvToHex\<close> after \<^verbatim>\<open>HexToHsluv\<close>; an error of either formula is
      the error of the whole.\<close>
  "hsluv_round_trip pkg hexColor =
     (case HexToHsluv pkg hexColor of
        Inl e \<Rightarrow> Inl e
      | Inr c \<Rightarrow> HsluvToHex pkg (HSLuvColor_h c) (HSLuvColor_s c) (HSLuvColor_l c))"

definition hpluv_round_trip :: "hsluv_package \<Rightarrow> string \<Rightarrow> error + string" where
  \<comment> \<open>The composition \<^verbatim>\<open>HpluvToHex\<close> after \<^verbatim>\<open>HexToHpluv\<close>.\<close>
  "hpluv_round_trip pkg hexColor =
     (case HexToHpluv pkg hexColor of
        Inl e \<Rightarrow> Inl e
      | Inr c \<Rightarrow> HpluvToHex pkg (HPLuvColor_h c) (HPLuvColor_p c) (HPLuvColor_l c))"





definition interpolate :: "(real \<Rightarrow> real) \<Rightarrow> real \<Rightarrow> real \<Rightarrow> real \<Rightarrow> real" where
  \<comment> \<open>\<^verbatim>\<open>rgb1[j] * (1 - ratio) + rgb2[j] * ratio\<close> in double arithmetic: every operation is
      rounded by \<open>fl\<close>.\<close>
  "interpolate fl a b ratio = fl (fl (a * fl (1 - ratio)) + fl (b * ratio))"

definition gradient_step ::
  "(real \<Rightarrow> real) \<Rightarrow> real option list \<Rightarrow> real option list \<Rightarrow> real \<Rightarrow> nat \<Rightarrow> string" where
  \<comment> \<open>The body of the loop of \<^verbatim>\<open>LinearGradient\<close>: the colour pushed at step \<open>i\<close>.\<close>
  "gradient_step fl rgb1 rgb2 steps i =
     (let ratio = fl (real i / fl (steps - 1));
          chan = (\<lambda>j. do {
            a \<leftarrow> nth_js rgb1 j;
            b \<leftarrow> nth_js rgb2 j;
            Some (Math_round (interpolate fl a b ratio))
          });
          r = chan 0;
          g = chan 1;
          b = chan 2
      in rgbToHex [r, g, b])"

function gradient_loop ::
  "(real \<Rightarrow> real) \<Rightarrow> real option list \<Rightarrow> real option list \<Rightarrow> real \<Rightarrow> nat \<Rightarrow> string list" where
  \<comment> \<open>\<^verbatim>\<open>for (let i = 0; i < steps; i++)\<close> of \<^verbatim>\<open>LinearGradient\<close>: the colours pushed from
      step \<open>i\<close> on.\<close>
  "gradient_loop fl rgb1 rgb2 steps i =
     (if real i < steps
      then gradient_step fl rgb1 rgb2 steps i # gradient_loop fl rgb1 rgb2 steps (Suc i)
      else [])"
  by pat_completeness auto
termination
proof (relation "measure (\<lambda>(fl, rgb1, rgb2, steps, i). nat \<lceil>steps\<rceil> - i)")
  fix fl :: "real \<Rightarrow> real" and rgb1 rgb2 :: "real option list" and steps :: real and i :: nat
  assume "real i < steps"
  then have "int i < \<lceil>steps\<rceil>" by (simp add: less_ceiling_iff)
  then have "i < nat \<lceil>steps\<rceil>" by linarith
  then show "((fl, rgb1, rgb2, steps, Suc i), (fl, rgb1, rgb2, steps, i))
      \<in> measure (\<lambda>(fl, rgb1, rgb2, steps, i). nat \<lceil>steps\<rceil> - i)" by simp
qed simp

declare gradient_loop.simps [simp del]

definition LinearGradient ::
  "(real \<Rightarrow> real) \<Rightarrow> string \<Rightarrow> string \<Rightarrow> real \<Rightarrow> error + string list" where
  "LinearGradient fl color1 color2 steps =
     (if \<not> isValidHexColor color1 \<or> \<not> isValidHexColor color2
      then Inl (UserVisibleError ''Invalid hex color format. Please use #RRGGBB format.'')
      else if steps < 2 \<or> steps > 100
      then Inl (UserVisibleError ''Steps must be between 2 and 100.'')
      else
        let rgb1 = hexToRgb color1;
            rgb2 = hexToRgb color2
        in Inr (gradient_loop fl rgb1 rgb2 steps 0))"

section \<open>Notions used in the statements\<close>

definition toLowerCase :: "string \<Rightarrow> string" where
  \<comment> \<open>A hex colour with its letters in lower case.\<close>
  "toLowerCase s = map (\<lambda>ch. if 65 \<le> (of_char ch :: nat) \<and> (of_char ch :: nat) \<le> 90
                               then char_of (of_char ch + 32 :: nat) else ch) s"

definition hueDistance :: "real \<Rightarrow> real \<Rightarrow> real" where
  \<comment> \<open>The circular distance of two hues: \<open>min(|\<Delta>h|, 360 - |\<Delta>h|)\<close>.\<close>
  "hueDistance a b = min \<bar>a - b\<bar> (360 - \<bar>a - b\<bar>)"


definition harmony_by_nearest_target :: "real \<Rightarrow> string" where
  \<comment> \<open>The classification in the words of claim C5: the nearest of the targets \<open>0\<close>, \<open>180\<close>,
      \<open>120\<close>, \<open>90\<close> decides when the distance lies within 30 degrees of it.\<close>
  "harmony_by_nearest_target d =
     (let targets = [(0, ''Analogous (harmonious)''), (180, ''Complementary (high contrast)''),
                     (120, ''Triadic (balanced)''), (90, ''Square (vibrant)'')];
          nearest = arg_min_list (\<lambda>(t, name). \<bar>d - t\<bar>) targets
      in if \<bar>d - fst nearest\<bar> < 30 then snd nearest else ''Discordant (use with caution)'')"



definition readme_package :: hsluv_package where
  \<comment> \<open>An instance of the package's interface for closed examples. It reports for every colour
      the values the README gives for red, \<^verbatim>\<open>HexToHsluv("#FF0000")\<close> as \<open>h 0, s 100, l 53.24\<close>
      and \<^verbatim>\<open>HexToHpluv("#FF0000")\<close> as \<open>h 0, p 426.23, l 53.24\<close>, and it renders the hues
      \<open>0\<close>, \<open>60\<close>, \<open>120\<close>, \<open>180\<close> and \<open>240\<close> as the README's examples of \<^verbatim>\<open>TriadicScheme\<close> and
      \<^verbatim>\<open>TetradicScheme\<close> for red do (at \<open>240\<close>, where the two differ, as the first).\<close>
  "readme_package =
     \<lparr>new_Hsluv = \<lparr>hex = ''#000000'', hsluv_h = 0, hsluv_s = 0, hsluv_l = 0,
                    hpluv_h = 0, hpluv_p = 0, hpluv_l = 0\<rparr>,
      hexToHsluv = (\<lambda>c. c\<lparr>hsluv_h := 0, hsluv_s := 100, hsluv_l := 53.24\<rparr>),
      hsluvToHex = (\<lambda>c. c\<lparr>hex := (if hsluv_h c = 60 then ''#80FF00''
                                      else if hsluv_h c = 120 then ''#00FF00''
                                      else if hsluv_h c = 180 then ''#00FFFF''
                                      else if hsluv_h c = 240 then ''#0000FF''
                                      else ''#FF0000'')\<rparr>),
      hexToHpluv = (\<lambda>c. c\<lparr>hpluv_h := 0, hpluv_p := 426.23, hpluv_l := 53.24\<rparr>),
      hpluvToHex = (\<lambda>c. c\<lparr>hex := ''#FF0000''\<rparr>)\<rparr>"

section \<open>Rounding\<close>

lemma Math_round_err: "\<bar>Math_round z - z\<bar> \<le> 1/2"
  unfolding Math_round_def using of_int_round_abs_le[of z] by (simp add: round_def)

lemma Math_round_near:
  assumes "\<bar>z - of_int n\<bar> < 5/2"
  shows "\<bar>Math_round z - of_int n\<bar> \<le> 2"
proof -
  have "\<lfloor>z + 1/2\<rfloor> \<le> n + 2" using assms by (intro floor_le_iff[THEN iffD2]) (auto simp: abs_if split: if_splits)
  moreover have "n - 2 \<le> \<lfloor>z + 1/2\<rfloor>" using assms by (intro le_floor_iff[THEN iffD2]) (auto simp: abs_if split: if_splits)
  ultimately have "\<bar>\<lfloor>z + 1/2\<rfloor> - n\<bar> \<le> 2" by linarith
  then have "\<bar>real_of_int (\<lfloor>z + 1/2\<rfloor> - n)\<bar> \<le> 2" by linarith
  then show ?thesis unfolding Math_round_def by simp
qed


lemma key_int_bound:
  fixes j :: int
  assumes "0 \<le> j" "j \<le> 254"
  shows "5100 - 51 * ((40 * j + 51) div 102) + \<bar>4000 * j - 10200 * ((40 * j + 51) div 102)\<bar> < 10000"
proof -
  define n where "n = (40 * j + 51) div 102"
  have e: "40 * j + 51 = 102 * n + (40 * j + 51) mod 102"
    unfolding n_def by (simp add: mult_div_mod_eq)
  have "0 \<le> (40 * j + 51) mod 102" "(40 * j + 51) mod 102 < 102" by simp_all
  with e have lo: "102 * n \<le> 40 * j + 51" and hi: "40 * j + 51 < 102 * n + 102"
    by linarith+
  show ?thesis
  proof (cases "4 \<le> n")
    case True
    then show ?thesis unfolding n_def[symmetric] using lo hi by linarith
  next
    case False
    then have "j \<le> 8" using hi by linarith
    with assms have "j \<in> {0,1,2,3,4,5,6,7,8}" by auto
    then show ?thesis by auto
  qed
qed


lemma k_round_bound:
  fixes Mi :: int
  assumes "1 \<le> Mi" "Mi \<le> 255"
  defines "A \<equiv> 255 * (1 - Math_round ((1 - of_int Mi / 255) * 100) / 100)"
  shows "0 \<le> A" and "A / 200 + \<bar>A - of_int Mi\<bar> < 5/2"
proof -
  define j where "j = 255 - Mi"
  define n where "n = (40 * j + 51) div 102"
  have j: "0 \<le> j" "j \<le> 254" using assms by (simp_all add: j_def)
  have "(1 - of_int Mi / 255) * 100 + 1/2 = real_of_int (40 * j + 51) / real_of_int 102"
    by (simp add: j_def field_simps)
  then have "\<lfloor>(1 - real_of_int Mi / 255) * 100 + 1/2\<rfloor> = n"
    unfolding n_def by (simp only: floor_divide_of_int_eq)
  then have A: "A = 255 - 51 * of_int n / 20"
    unfolding A_def Math_round_def by simp
  have M: "real_of_int Mi = 255 - of_int j" by (simp add: j_def)
  have e: "40 * j + 51 = 102 * n + (40 * j + 51) mod 102"
    unfolding n_def by (simp add: mult_div_mod_eq)
  have "0 \<le> (40 * j + 51) mod 102" "(40 * j + 51) mod 102 < 102" by simp_all
  with e have lo: "102 * n \<le> 40 * j + 51" and hi: "40 * j + 51 < 102 * n + 102"
    by linarith+
  have "n \<le> 100" using lo j by linarith
  then have "real_of_int n \<le> 100" by linarith
  then show "0 \<le> A" unfolding A by simp
  have "5100 - 51 * n + \<bar>4000 * j - 10200 * n\<bar> < 10000"
    using key_int_bound[OF j] by (simp add: n_def)
  then have "real_of_int (5100 - 51 * n + \<bar>4000 * j - 10200 * n\<bar>) < 10000"
    by linarith
  then show "A / 200 + \<bar>A - of_int Mi\<bar> < 5/2"
    unfolding A M by (simp add: abs_if field_simps split: if_splits)
qed

lemma channel_round_trip:
  fixes xi Mi :: int
  assumes "0 \<le> xi" "xi \<le> Mi" "1 \<le> Mi" "Mi \<le> 255"
  defines "kr \<equiv> Math_round ((1 - of_int Mi / 255) * 100) / 100"
  defines "cr \<equiv> Math_round ((of_int Mi - of_int xi) / of_int Mi * 100) / 100"
  shows "\<bar>Math_round (255 * (1 - cr) * (1 - kr)) - of_int xi\<bar> \<le> 2"
proof -
  define A where "A = 255 * (1 - kr)"
  define M where "M = real_of_int Mi"
  define x where "x = real_of_int xi"
  have A0: "0 \<le> A" and Ab: "A / 200 + \<bar>A - M\<bar> < 5/2"
    using k_round_bound[OF assms(3,4)] by (simp_all add: A_def kr_def M_def)
  have Mpos: "0 < M" and xM: "0 \<le> x" "x \<le> M" using assms by (simp_all add: M_def x_def)
  define e where "e = (1 - cr) - x / M"
  define z where "z = (M - x) / M * 100"
  have z: "1 - x / M = z / 100" using Mpos by (simp add: z_def field_simps)
  have crz: "cr = Math_round z / 100" by (simp add: cr_def z_def M_def x_def)
  have "e = z / 100 - Math_round z / 100" using z crz unfolding e_def by linarith
  then have "e = (z - Math_round z) / 100" by (simp add: diff_divide_distrib)
  then have "\<bar>e\<bar> = \<bar>Math_round z - z\<bar> / 100" by (simp add: abs_minus_commute)
  then have "\<bar>e\<bar> \<le> 1/200"
    using Math_round_err[of z] by simp
  define t where "t = x / M"
  have dev: "255 * (1 - cr) * (1 - kr) - x = t * (A - M) + A * e"
    using Mpos by (simp add: A_def e_def t_def field_simps)
  have t: "0 \<le> t" "t \<le> 1" using Mpos xM by (simp_all add: t_def)
  have "\<bar>t * (A - M)\<bar> = t * \<bar>A - M\<bar>" using t by (simp add: abs_mult)
  also have "\<dots> \<le> 1 * \<bar>A - M\<bar>" by (rule mult_right_mono) (use t in simp_all)
  finally have "\<bar>t * (A - M)\<bar> \<le> \<bar>A - M\<bar>" by simp
  moreover have "\<bar>A * e\<bar> \<le> A / 200"
  proof -
    have "\<bar>A * e\<bar> = A * \<bar>e\<bar>" using A0 by (simp add: abs_mult)
    also have "\<dots> \<le> A * (1/200)" by (rule mult_left_mono) (use A0 \<open>\<bar>e\<bar> \<le> 1/200\<close> in simp_all)
    finally show ?thesis by simp
  qed
  ultimately have "\<bar>255 * (1 - cr) * (1 - kr) - x\<bar> < 5/2"
    unfolding dev using Ab by linarith
  then show ?thesis unfolding x_def by (rule Math_round_near)
qed


lemma rgbToCmyk_black: "rgbToCmyk 0 0 0 = Some \<lparr>cmyk_c = 0, cmyk_m = 0, cmyk_y = 0, cmyk_k = 1\<rparr>"
  by (simp add: rgbToCmyk_def)

lemma rgbToCmyk_nonblack:
  fixes r g b :: real
  defines "M \<equiv> max r (max g b)"
  assumes "M \<noteq> 0"
  shows "rgbToCmyk r g b =
    Some \<lparr>cmyk_c = Math_round ((M - r) / M * 100) / 100,
          cmyk_m = Math_round ((M - g) / M * 100) / 100,
          cmyk_y = Math_round ((M - b) / M * 100) / 100,
          cmyk_k = Math_round ((1 - M / 255) * 100) / 100\<rparr>"
proof -
  have k: "min (1 - r / 255) (min (1 - g / 255) (1 - b / 255)) = 1 - M / 255"
    by (simp add: M_def min_def max_def)
  have k1: "1 - M / 255 \<noteq> 1" using assms by simp
  have d: "1 - (1 - M / 255) = M / 255" by simp
  have q: "(1 - x / 255 - (1 - M / 255)) / (M / 255) = (M - x) / M" for x
    using assms by (simp add: field_simps)
  show ?thesis
    unfolding rgbToCmyk_def Let_def k using k1 assms(2)
    by (simp add: fdiv_def d q)
qed

lemma Math_round_unit:
  assumes "0 \<le> v" "v \<le> 1"
  shows "0 \<le> Math_round (v * 100) / 100" and "Math_round (v * 100) / 100 \<le> 1"
proof -
  have "0 \<le> \<lfloor>v * 100 + 1/2\<rfloor>" using assms by (intro le_floor_iff[THEN iffD2]) simp
  then show "0 \<le> Math_round (v * 100) / 100" by (simp add: Math_round_def)
  have "\<lfloor>v * 100 + 1/2\<rfloor> \<le> 100" using assms by (intro floor_le_iff[THEN iffD2]) simp
  then have "real_of_int \<lfloor>v * 100 + 1/2\<rfloor> \<le> 100" by linarith
  then show "Math_round (v * 100) / 100 \<le> 1" by (simp add: Math_round_def)
qed

lemma Math_round_0: "Math_round 0 = 0"
  by (simp add: Math_round_def)

section \<open>CMYK\<close>

text \<open>
  Claim C4. For channels in \<open>[0, 255]\<close>, \<^verbatim>\<open>rgbToCmyk\<close> returns a value (no division by
  zero takes place, so no \<^verbatim>\<open>NaN\<close> and no infinity arises), its four components lie in
  \<open>[0, 1]\<close>, at least one of \<open>c\<close>, \<open>m\<close>, \<open>y\<close> is \<open>0\<close>, and on black the result is exactly
  \<open>(0, 0, 0, 1)\<close>.
\<close>

theorem rgbToCmyk_range:
  assumes "isValidRgb r g b"
  shows "\<exists>q. rgbToCmyk r g b = Some q
           \<and> 0 \<le> cmyk_c q \<and> cmyk_c q \<le> 1 \<and> 0 \<le> cmyk_m q \<and> cmyk_m q \<le> 1
           \<and> 0 \<le> cmyk_y q \<and> cmyk_y q \<le> 1 \<and> 0 \<le> cmyk_k q \<and> cmyk_k q \<le> 1
           \<and> (cmyk_c q = 0 \<or> cmyk_m q = 0 \<or> cmyk_y q = 0)
           \<and> (r = 0 \<and> g = 0 \<and> b = 0 \<longrightarrow>
                 q = \<lparr>cmyk_c = 0, cmyk_m = 0, cmyk_y = 0, cmyk_k = 1\<rparr>)"
proof (cases "r = 0 \<and> g = 0 \<and> b = 0")
  case True
  then show ?thesis by (simp add: rgbToCmyk_black)
next
  case False
  define M where "M = max r (max g b)"
  have rng: "0 \<le> r" "r \<le> 255" "0 \<le> g" "g \<le> 255" "0 \<le> b" "b \<le> 255"
    using assms by (simp_all add: isValidRgb_def)
  have Mpos: "0 < M" using False rng by (auto simp: M_def max_def)
  have M255: "M \<le> 255" using rng by (simp add: M_def)
  have le: "r \<le> M" "g \<le> M" "b \<le> M" by (simp_all add: M_def)
  have u: "0 \<le> (M - x) / M \<and> (M - x) / M \<le> 1" if "0 \<le> x" "x \<le> M" for x
    using that Mpos by (simp add: field_simps)
  have uk: "0 \<le> 1 - M / 255" "1 - M / 255 \<le> 1" using Mpos M255 by simp_all
  have z: "Math_round ((M - r) / M * 100) / 100 = 0 \<or> Math_round ((M - g) / M * 100) / 100 = 0
      \<or> Math_round ((M - b) / M * 100) / 100 = 0"
  proof -
    have "M = r \<or> M = g \<or> M = b" by (auto simp: M_def max_def)
    then show ?thesis by (auto simp: Math_round_0)
  qed
  let ?q = "\<lparr>cmyk_c = Math_round ((M - r) / M * 100) / 100,
          cmyk_m = Math_round ((M - g) / M * 100) / 100,
          cmyk_y = Math_round ((M - b) / M * 100) / 100,
          cmyk_k = Math_round ((1 - M / 255) * 100) / 100\<rparr>"
  have eq: "rgbToCmyk r g b = Some ?q"
    using rgbToCmyk_nonblack[of r g b, folded M_def] Mpos by simp
  have c: "0 \<le> cmyk_c ?q" "cmyk_c ?q \<le> 1"
    using Math_round_unit[of "(M - r) / M"] u[OF rng(1) le(1)] by simp_all
  have m: "0 \<le> cmyk_m ?q" "cmyk_m ?q \<le> 1"
    using Math_round_unit[of "(M - g) / M"] u[OF rng(3) le(2)] by simp_all
  have y: "0 \<le> cmyk_y ?q" "cmyk_y ?q \<le> 1"
    using Math_round_unit[of "(M - b) / M"] u[OF rng(5) le(3)] by simp_all
  have k: "0 \<le> cmyk_k ?q" "cmyk_k ?q \<le> 1"
    using Math_round_unit[OF uk] by simp_all
  have z': "cmyk_c ?q = 0 \<or> cmyk_m ?q = 0 \<or> cmyk_y ?q = 0"
    using z by simp
  show ?thesis
    using eq c m y k z' False by blast
qed

theorem rgbToCmyk_range_witness:
  "isValidRgb 0 0 0 \<and> rgbToCmyk 0 0 0 = Some \<lparr>cmyk_c = 0, cmyk_m = 0, cmyk_y = 0, cmyk_k = 1\<rparr>
   \<and> isValidRgb 255 128 0
   \<and> rgbToCmyk 255 128 0 = Some \<lparr>cmyk_c = 0, cmyk_m = 1/2, cmyk_y = 1, cmyk_k = 0\<rparr>"
  using rgbToCmyk_range[of 0 0 0] rgbToCmyk_range[of 255 128 0]
  by (simp add: isValidRgb_def rgbToCmyk_def fdiv_def Math_round_def Let_def)

text \<open>
  Claim C3, as amended. For integer channels in \<open>[0, 255]\<close>, \<^verbatim>\<open>cmykToRgb\<close> after
  \<^verbatim>\<open>rgbToCmyk\<close> returns channels that each differ from the original by at most \<open>2\<close>. The
  bound \<open>1\<close> of the claim fails: the two roundings to two decimals add up.
\<close>

theorem cmyk_round_trip_within_2:
  fixes ri gi bi :: int
  assumes "0 \<le> ri" "ri \<le> 255" "0 \<le> gi" "gi \<le> 255" "0 \<le> bi" "bi \<le> 255"
  shows "\<exists>p. cmyk_round_trip (of_int ri) (of_int gi) (of_int bi) = Some p
           \<and> \<bar>rgb_r p - of_int ri\<bar> \<le> 2 \<and> \<bar>rgb_g p - of_int gi\<bar> \<le> 2
           \<and> \<bar>rgb_b p - of_int bi\<bar> \<le> 2"
proof (cases "ri = 0 \<and> gi = 0 \<and> bi = 0")
  case True
  then show ?thesis
    by (simp add: cmyk_round_trip_def rgbToCmyk_black cmykToRgb_def Math_round_def)
next
  case False
  define Mi where "Mi = max ri (max gi bi)"
  have M: "max (real_of_int ri) (max (real_of_int gi) (real_of_int bi)) = real_of_int Mi"
    by (simp add: Mi_def max_def)
  have M1: "1 \<le> Mi" using False assms by (auto simp: Mi_def max_def)
  have M255: "Mi \<le> 255" using assms by (simp add: Mi_def)
  have le: "ri \<le> Mi" "gi \<le> Mi" "bi \<le> Mi" by (simp_all add: Mi_def)
  have nz: "max (real_of_int ri) (max (real_of_int gi) (real_of_int bi)) \<noteq> 0"
    unfolding M using M1 by simp
  show ?thesis
    unfolding cmyk_round_trip_def rgbToCmyk_nonblack[OF nz] M
    using channel_round_trip[OF assms(1) le(1) M1 M255]
      channel_round_trip[OF assms(3) le(2) M1 M255]
      channel_round_trip[OF assms(5) le(3) M1 M255]
    by (simp add: cmykToRgb_def)
qed

theorem cmyk_round_trip_within_2_witness:
  "(0::int) \<le> 64 \<and> (64::int) \<le> 255 \<and> (0::int) \<le> 65 \<and> (65::int) \<le> 255
   \<and> cmyk_round_trip 64 65 0 = Some \<lparr>rgb_r = 62, rgb_g = 64, rgb_b = 0\<rparr>"
  using cmyk_round_trip_within_2[of 64 65 0]
  by (simp add: cmyk_round_trip_def rgbToCmyk_def cmykToRgb_def fdiv_def Math_round_def Let_def)

text \<open>The bound \<open>1\<close> fails at \<open>(253, 254, 0)\<close>, which comes back as \<open>(255, 255, 0)\<close>.\<close>

theorem cmyk_round_trip_not_within_1:
  "cmyk_round_trip 253 254 0 = Some \<lparr>rgb_r = 255, rgb_g = 255, rgb_b = 0\<rparr>
   \<and> \<not> \<bar>(255::real) - 253\<bar> \<le> 1"
  by (simp add: cmyk_round_trip_def rgbToCmyk_def cmykToRgb_def fdiv_def Math_round_def Let_def)

section \<open>Dichromatic simulation\<close>

lemma convex_round:
  fixes r g b x y z :: real
  assumes "0 \<le> r" "r \<le> 255" "0 \<le> g" "g \<le> 255" "0 \<le> b" "b \<le> 255"
    and "0 \<le> x" "0 \<le> y" "0 \<le> z" "x + y + z = 1"
  shows "0 \<le> \<lfloor>r * x + g * y + b * z + 1/2\<rfloor>" and "\<lfloor>r * x + g * y + b * z + 1/2\<rfloor> \<le> 255"
proof -
  have lo: "0 \<le> r * x" "0 \<le> g * y" "0 \<le> b * z" using assms by simp_all
  have "r * x \<le> 255 * x" "g * y \<le> 255 * y" "b * z \<le> 255 * z"
    using assms by (simp_all add: mult_right_mono)
  then have hi: "r * x + g * y + b * z \<le> 255" using assms(10) by linarith
  show "0 \<le> \<lfloor>r * x + g * y + b * z + 1/2\<rfloor>" using lo by (intro le_floor_iff[THEN iffD2]) simp
  show "\<lfloor>r * x + g * y + b * z + 1/2\<rfloor> \<le> 255" using hi by (intro floor_le_iff[THEN iffD2]) simp
qed

lemma matrices_rows:
  "list_all (\<lambda>row. length row = 3 \<and> list_all (\<lambda>e. 0 \<le> e) row \<and> sum_list row = 1) (matrices type)"
  by (cases type) (simp_all add: matrices_def)

text \<open>
  Claim C10. For each of the three kinds of dichromacy and channels in \<open>[0, 255]\<close>, every
  output channel of \<^verbatim>\<open>simulateColorBlindness\<close> is an integer in \<open>[0, 255]\<close>; every row of
  the three matrices has three entries, none negative, that add up to exactly \<open>1\<close>.
\<close>

theorem simulateColorBlindness_in_range:
  assumes "isValidRgb r g b"
  shows "(\<exists>r' g' b' :: int.
            simulateColorBlindness [Some r, Some g, Some b] type
              = [Some (of_int r'), Some (of_int g'), Some (of_int b')]
            \<and> 0 \<le> r' \<and> r' \<le> 255 \<and> 0 \<le> g' \<and> g' \<le> 255 \<and> 0 \<le> b' \<and> b' \<le> 255)
         \<and> list_all (\<lambda>row. length row = 3 \<and> list_all (\<lambda>e. 0 \<le> e) row \<and> sum_list row = 1)
              (matrices type)"
proof -
  have rng: "0 \<le> r" "r \<le> 255" "0 \<le> g" "g \<le> 255" "0 \<le> b" "b \<le> 255"
    using assms by (simp_all add: isValidRgb_def)
  note cr = convex_round[OF rng]
  have "\<exists>r' g' b' :: int.
           simulateColorBlindness [Some r, Some g, Some b] type
             = [Some (of_int r'), Some (of_int g'), Some (of_int b')]
           \<and> 0 \<le> r' \<and> r' \<le> 255 \<and> 0 \<le> g' \<and> g' \<le> 255 \<and> 0 \<le> b' \<and> b' \<le> 255"
  proof (cases type)
    case protanopia
    show ?thesis
      using cr[of "0.567" "0.433" 0] cr[of "0.558" "0.442" 0] cr[of 0 "0.242" "0.758"]
      by (simp add: protanopia simulateColorBlindness_def matrices_def nth_js_def Math_round_def)
  next
    case deuteranopia
    show ?thesis
      using cr[of "0.625" "0.375" 0] cr[of "0.7" "0.3" 0] cr[of 0 "0.3" "0.7"]
      by (simp add: deuteranopia simulateColorBlindness_def matrices_def nth_js_def Math_round_def)
  next
    case tritanopia
    show ?thesis
      using cr[of "0.95" "0.05" 0] cr[of 0 "0.433" "0.567"] cr[of 0 "0.475" "0.525"]
      by (simp add: tritanopia simulateColorBlindness_def matrices_def nth_js_def Math_round_def)
  qed
  then show ?thesis using matrices_rows[of type] by (rule conjI)
qed

theorem simulateColorBlindness_in_range_witness:
  "isValidRgb 255 0 0
   \<and> simulateColorBlindness [Some 255, Some 0, Some 0] protanopia = [Some 145, Some 142, Some 0]
   \<and> isValidRgb 255 255 255
   \<and> simulateColorBlindness [Some 255, Some 255, Some 255] tritanopia
       = [Some 255, Some 255, Some 255]"
  using simulateColorBlindness_in_range[of 255 0 0 protanopia]
    simulateColorBlindness_in_range[of 255 255 255 tritanopia]
  by (simp add: isValidRgb_def simulateColorBlindness_def matrices_def nth_js_def Math_round_def)

section \<open>Harmony\<close>

lemma harmonyOfHues_windows:
  "harmonyOfHues h1 h2 =
     (let d = hueDistance h1 h2
      in if d < 30 then ''Analogous (harmonious)''
         else if 150 < d then ''Complementary (high contrast)''
         else if 90 < d \<and> d < 150 then ''Triadic (balanced)''
         else if 60 < d \<and> d \<le> 90 then ''Square (vibrant)''
         else ''Discordant (use with caution)'')"
proof -
  define a where "a = \<bar>h1 - h2\<bar>"
  have d: "hueDistance h1 h2 = (if a > 180 then 360 - a else a)"
    unfolding hueDistance_def a_def by (simp add: min_def)
  show ?thesis
    unfolding harmonyOfHues_def d Let_def a_def[symmetric]
    by (cases "a > 180") (auto simp: abs_if)
qed

text \<open>
  Claim C5, as amended. \<^verbatim>\<open>evaluateColorHarmony\<close> computes the circular distance \<open>d\<close> of the
  two HSLuv hues and returns the first window that holds \<open>d\<close>, in the order analogous
  (\<open>d < 30\<close>), complementary (\<open>150 < d\<close>), triadic (\<open>90 < d < 150\<close>), square
  (\<open>60 < d \<le> 90\<close>), and discordant otherwise (\<open>30 \<le> d \<le> 60\<close> and \<open>d = 150\<close>). The windows
  are open, and between \<open>90\<close> and \<open>105\<close> the answer is triadic although \<open>90\<close> is the nearer
  target. A distance of \<open>180\<close> is complementary and a distance of \<open>0\<close> analogous.
\<close>

theorem evaluateColorHarmony_windows:
  "evaluateColorHarmony pkg color1 color2 =
     (let h1 = hsluv_h (hexToHsluv pkg ((new_Hsluv pkg)\<lparr>hex := color1\<rparr>));
          h2 = hsluv_h (hexToHsluv pkg ((new_Hsluv pkg)\<lparr>hex := color2\<rparr>));
          d = hueDistance h1 h2
      in if d < 30 then ''Analogous (harmonious)''
         else if 150 < d then ''Complementary (high contrast)''
         else if 90 < d \<and> d < 150 then ''Triadic (balanced)''
         else if 60 < d \<and> d \<le> 90 then ''Square (vibrant)''
         else ''Discordant (use with caution)'')
   \<and> hueDistance h (h + 180) = 180
   \<and> harmonyOfHues h (h + 180) = ''Complementary (high contrast)''
   \<and> hueDistance h h = 0
   \<and> harmonyOfHues h h = ''Analogous (harmonious)''"
proof -
  have "evaluateColorHarmony pkg color1 color2 =
     (let h1 = hsluv_h (hexToHsluv pkg ((new_Hsluv pkg)\<lparr>hex := color1\<rparr>));
          h2 = hsluv_h (hexToHsluv pkg ((new_Hsluv pkg)\<lparr>hex := color2\<rparr>));
          d = hueDistance h1 h2
      in if d < 30 then ''Analogous (harmonious)''
         else if 150 < d then ''Complementary (high contrast)''
         else if 90 < d \<and> d < 150 then ''Triadic (balanced)''
         else if 60 < d \<and> d \<le> 90 then ''Square (vibrant)''
         else ''Discordant (use with caution)'')"
    unfolding evaluateColorHarmony_def Let_def harmonyOfHues_windows[unfolded Let_def] ..
  moreover have "hueDistance h (h + 180) = 180" "hueDistance h h = 0"
    by (simp_all add: hueDistance_def)
  moreover have "harmonyOfHues h (h + 180) = ''Complementary (high contrast)''"
    "harmonyOfHues h h = ''Analogous (harmonious)''"
    by (simp_all add: harmonyOfHues_def)
  ultimately show ?thesis by (intro conjI)
qed

text \<open>
  The claim as stated fails for two hues \<open>0\<close> and \<open>100\<close>: their distance is \<open>100\<close>, the
  nearest target is \<open>90\<close> (square), the code answers triadic.
\<close>

theorem harmony_not_nearest_target:
  "hueDistance 0 100 = 100
   \<and> harmonyOfHues 0 100 = ''Triadic (balanced)''
   \<and> harmony_by_nearest_target 100 = ''Square (vibrant)''"
  by (simp add: hueDistance_def harmonyOfHues_def harmony_by_nearest_target_def Let_def)

section \<open>The hue of the reverse conversions\<close>

text \<open>
  Claim C2, as amended. \<^verbatim>\<open>HsluvToHex\<close> and \<^verbatim>\<open>HpluvToHex\<close> reject a hue below \<open>0\<close> or above
  \<open>360\<close> with a user-visible error; a hue in \<open>[0, 360]\<close> (with the other two values in
  \<open>[0, 100]\<close>) is handed to the package as it is, \<open>360\<close> included, without normalization.
\<close>

theorem hue_guard:
  "(h < 0 \<or> 360 < h \<longrightarrow>
      HsluvToHex pkg h s l = Inl (UserVisibleError
        ''Invalid HSLuv values. Hue: 0-360, Saturation and Lightness: 0-100.'')
      \<and> HpluvToHex pkg h s l = Inl (UserVisibleError
        ''Invalid HPLuv values. Hue: 0-360, Percent and Lightness: 0-100.''))
   \<and> (0 \<le> h \<and> h \<le> 360 \<and> 0 \<le> s \<and> s \<le> 100 \<and> 0 \<le> l \<and> l \<le> 100 \<longrightarrow>
      HsluvToHex pkg h s l
        = Inr (hex (hsluvToHex pkg ((new_Hsluv pkg)\<lparr>hsluv_h := h, hsluv_s := s, hsluv_l := l\<rparr>)))
      \<and> HpluvToHex pkg h s l
        = Inr (hex (hpluvToHex pkg ((new_Hsluv pkg)\<lparr>hpluv_h := h, hpluv_p := s, hpluv_l := l\<rparr>))))"
  by (auto simp: HsluvToHex_def HpluvToHex_def isValidHsluv_def isValidHpluv_def Let_def)

theorem hue_guard_witness:
  "\<forall>pkg. HsluvToHex pkg 360 50 50
      = Inr (hex (hsluvToHex pkg ((new_Hsluv pkg)\<lparr>hsluv_h := 360, hsluv_s := 50, hsluv_l := 50\<rparr>)))
    \<and> HpluvToHex pkg 0 50 50
      = Inr (hex (hpluvToHex pkg ((new_Hsluv pkg)\<lparr>hpluv_h := 0, hpluv_p := 50, hpluv_l := 50\<rparr>)))
    \<and> HsluvToHex pkg 360.5 50 50 = Inl (UserVisibleError
        ''Invalid HSLuv values. Hue: 0-360, Saturation and Lightness: 0-100.'')"
  using hue_guard[of 360 _ 50 50] hue_guard[of 0 _ 50 50] hue_guard[of "360.5" _ 50 50]
  by simp

text \<open>
  The claim as stated fails at the hues \<open>-10\<close> and \<open>400\<close>: whatever the package does, both
  formulas answer with the error.
\<close>

theorem hue_not_normalized:
  "\<forall>pkg. HsluvToHex pkg (- 10) 50 50 = Inl (UserVisibleError
        ''Invalid HSLuv values. Hue: 0-360, Saturation and Lightness: 0-100.'')
    \<and> HsluvToHex pkg 400 50 50 = Inl (UserVisibleError
        ''Invalid HSLuv values. Hue: 0-360, Saturation and Lightness: 0-100.'')
    \<and> HpluvToHex pkg (- 10) 50 50 = Inl (UserVisibleError
        ''Invalid HPLuv values. Hue: 0-360, Percent and Lightness: 0-100.'')
    \<and> HpluvToHex pkg 400 50 50 = Inl (UserVisibleError
        ''Invalid HPLuv values. Hue: 0-360, Percent and Lightness: 0-100.'')"
  by (simp add: HsluvToHex_def HpluvToHex_def isValidHsluv_def isValidHpluv_def)

section \<open>Round trips through HSLuv and HPLuv\<close>

lemma valid_upper_red: "isValidHexColor ''#FF0000''"
  by code_simp

lemma Math_round_100_range:
  assumes "0 \<le> x" "x \<le> m" "m \<in> \<int>"
  shows "0 \<le> Math_round (x * 100) / 100" "Math_round (x * 100) / 100 \<le> m"
proof -
  obtain k :: int where k: "m = of_int k" using assms(3) by (auto elim: Ints_cases)
  have "0 \<le> \<lfloor>x * 100 + 1/2\<rfloor>" using assms(1) by (simp add: le_floor_iff)
  then show "0 \<le> Math_round (x * 100) / 100" by (simp add: Math_round_def)
  have "x * 100 + 1/2 < of_int (k * 100) + 1" using assms(2) by (simp add: k)
  then have "\<lfloor>x * 100 + 1/2\<rfloor> \<le> k * 100" by (simp only: floor_le_iff)
  then have "real_of_int \<lfloor>x * 100 + 1/2\<rfloor> \<le> real_of_int (k * 100)" by (simp only: of_int_le_iff)
  then show "Math_round (x * 100) / 100 \<le> m" by (simp add: Math_round_def k)
qed

lemma hsluv_round_trip_returns:
  fixes pkg :: hsluv_package and hexColor :: string
  defines "c \<equiv> hexToHsluv pkg ((new_Hsluv pkg)\<lparr>hex := hexColor\<rparr>)"
  defines "h \<equiv> Math_round (hsluv_h c * 100) / 100"
  defines "s \<equiv> Math_round (hsluv_s c * 100) / 100"
  defines "l \<equiv> Math_round (hsluv_l c * 100) / 100"
  assumes "isValidHexColor hexColor"
    and "0 \<le> hsluv_h c" "hsluv_h c \<le> 360"
    and "0 \<le> hsluv_s c" "hsluv_s c \<le> 100"
    and "0 \<le> hsluv_l c" "hsluv_l c \<le> 100"
  shows "HexToHsluv pkg hexColor = Inr \<lparr>HSLuvColor_h = h, HSLuvColor_s = s, HSLuvColor_l = l\<rparr>
       \<and> hsluv_round_trip pkg hexColor
           = Inr (hex (hsluvToHex pkg ((new_Hsluv pkg)\<lparr>hsluv_h := h, hsluv_s := s, hsluv_l := l\<rparr>)))"
proof -
  have v: "isValidHsluv h s l"
    unfolding isValidHsluv_def h_def s_def l_def
    using Math_round_100_range[OF assms(6,7)] Math_round_100_range[OF assms(8,9)]
      Math_round_100_range[OF assms(10,11)]
    by simp
  have f: "HexToHsluv pkg hexColor = Inr \<lparr>HSLuvColor_h = h, HSLuvColor_s = s, HSLuvColor_l = l\<rparr>"
    using assms(5) by (simp add: HexToHsluv_def Let_def c_def h_def s_def l_def)
  show ?thesis using v by (simp add: f hsluv_round_trip_def HsluvToHex_def Let_def)
qed

text \<open>
  Claim C1. The round trip through the uniform-chroma model is to give the colour back; the
  code raises instead whenever the percent that \<^verbatim>\<open>HexToHpluv\<close> returns is above \<open>100\<close>:
  \<^verbatim>\<open>HexToHpluv\<close> hands on the package's percent unclamped and \<^verbatim>\<open>HpluvToHex\<close> rejects every
  percent above \<open>100\<close>, whatever the package does. The README's own example
  \<^verbatim>\<open>HpluvToHex(0, 426.23, 53.24)\<close>, documented to return \<^verbatim>\<open>#FF0000\<close>, is such a call. (The
  round trip through the uniform-saturation model returns a colour whenever the package
  reports values in range, by the lemma above; how near that colour is to the input is the
  arithmetic of the package.)
\<close>

theorem hpluv_round_trip_raises:
  "(isValidHexColor hexColor
      \<and> 100 < Math_round (hpluv_p (hexToHpluv pkg ((new_Hsluv pkg)\<lparr>hex := hexColor\<rparr>)) * 100) / 100
     \<longrightarrow> hpluv_round_trip pkg hexColor = Inl (UserVisibleError
           ''Invalid HPLuv values. Hue: 0-360, Percent and Lightness: 0-100.''))
   \<and> (100 < p \<longrightarrow> HpluvToHex pkg h p l = Inl (UserVisibleError
           ''Invalid HPLuv values. Hue: 0-360, Percent and Lightness: 0-100.''))
   \<and> HpluvToHex pkg 0 426.23 53.24 = Inl (UserVisibleError
           ''Invalid HPLuv values. Hue: 0-360, Percent and Lightness: 0-100.'')"
  by (simp add: hpluv_round_trip_def HexToHpluv_def HpluvToHex_def isValidHpluv_def Let_def)

theorem hpluv_round_trip_raises_witness:
  "isValidHexColor ''#FF0000''
   \<and> HexToHpluv readme_package ''#FF0000''
       = Inr \<lparr>HPLuvColor_h = 0, HPLuvColor_p = 426.23, HPLuvColor_l = 53.24\<rparr>
   \<and> (100::real) < 426.23
   \<and> hpluv_round_trip readme_package ''#FF0000'' = Inl (UserVisibleError
           ''Invalid HPLuv values. Hue: 0-360, Percent and Lightness: 0-100.'')"
  using hpluv_round_trip_raises[of "''#FF0000''" readme_package "426.23" 0 "53.24"] valid_upper_red
  by (simp add: HexToHpluv_def readme_package_def Math_round_def)

section \<open>Schemes\<close>











section \<open>Hex strings and device channels\<close>

lemma hexDigit_all:
  "\<forall>ch \<in> set ''0123456789ABCDEFabcdef''.
     \<not> isWhiteSpace ch \<and> ch \<noteq> CHR ''-'' \<and> ch \<noteq> CHR ''+'' \<and> ch \<noteq> CHR ''x'' \<and> ch \<noteq> CHR ''X''
     \<and> \<not> isLineTerminator ch \<and> digitVal ch < 16
     \<and> [digitChar (digitVal ch)] = toLowerCase [ch]
     \<and> isHexDigit (digitChar (digitVal ch))
     \<and> digitVal (digitChar (digitVal ch)) = digitVal ch"
  by (simp add: isWhiteSpace_def isLineTerminator_def digitVal_def digitChar_def toLowerCase_def
      isHexDigit_def char_of_eq_iff)

lemma hexDigit_facts:
  assumes "isHexDigit ch"
  shows "\<not> isWhiteSpace ch" "ch \<noteq> CHR ''-''" "ch \<noteq> CHR ''+''" "ch \<noteq> CHR ''x''" "ch \<noteq> CHR ''X''"
    "\<not> isLineTerminator ch" "digitVal ch < 16"
    "[digitChar (digitVal ch)] = toLowerCase [ch]"
    "isHexDigit (digitChar (digitVal ch))" "digitVal (digitChar (digitVal ch)) = digitVal ch"
  using assms hexDigit_all unfolding isHexDigit_def by blast+


lemma isValidHexColor_shape:
  assumes "isValidHexColor hx"
  obtains a b c d e f where "hx = [CHR ''#'', a, b, c, d, e, f]"
    "isHexDigit a" "isHexDigit b" "isHexDigit c" "isHexDigit d" "isHexDigit e" "isHexDigit f"
proof -
  from assms obtain ds where h: "hx = CHR ''#'' # ds" and l: "length ds = 6"
    and a: "list_all isHexDigit ds"
    by (auto simp: isValidHexColor_def split: list.splits)
  from l obtain a b c d e f where "ds = [a, b, c, d, e, f]"
    by (auto simp: length_Suc_conv eval_nat_numeral)
  with h a that show thesis by simp
qed

lemma parseInt16_pair:
  assumes "isHexDigit a" "isHexDigit b"
  shows "parseInt16 [a, b] = Some (real (16 * digitVal a + digitVal b))"
  using hexDigit_facts(1-5)[OF assms(1)] hexDigit_facts(1-5)[OF assms(2)] assms
  by (simp add: parseInt16_def Let_def)

lemma hexToRgb_valid:
  assumes "isHexDigit a" "isHexDigit b" "isHexDigit c" "isHexDigit d" "isHexDigit e" "isHexDigit f"
  shows "hexToRgb [CHR ''#'', a, b, c, d, e, f] =
    [Some (real (16 * digitVal a + digitVal b)), Some (real (16 * digitVal c + digitVal d)),
     Some (real (16 * digitVal e + digitVal f))]"
  using hexDigit_facts(6)[OF assms(1)] hexDigit_facts(6)[OF assms(2)] hexDigit_facts(6)[OF assms(3)]
    hexDigit_facts(6)[OF assms(4)] hexDigit_facts(6)[OF assms(5)] hexDigit_facts(6)[OF assms(6)]
  by (simp add: hexToRgb_def Let_def parseInt16_pair assms)

lemma Math_round_of_nat: "Math_round (real n) = real n"
  by (simp add: Math_round_def)

lemma hexDigits_byte:
  assumes "x < 16" "y < 16"
  shows "padStart2 (hexDigits (16 * x + y)) = [digitChar x, digitChar y]"
proof (cases "x = 0")
  case True
  have z: "char_of (48::nat) = CHR ''0''" by (simp add: char_of_eq_iff)
  from True show ?thesis using assms
    by (subst hexDigits.simps) (simp add: padStart2_def digitChar_def z)
next
  case False
  have "hexDigits (16 * x + y) = hexDigits x @ [digitChar y]"
    using False assms by (subst hexDigits.simps) simp
  also have "hexDigits x = [digitChar x]"
    using assms by (subst hexDigits.simps) simp
  finally show ?thesis by (simp add: padStart2_def)
qed

lemma toString16_byte:
  assumes "x < 16" "y < 16"
  shows "padStart2 (toString16 (Math_round (real (16 * x + y)))) = [digitChar x, digitChar y]"
proof -
  have "\<lfloor>Math_round (real (16 * x + y))\<rfloor> = int (16 * x + y)"
    unfolding Math_round_of_nat by (rule floor_of_nat)
  then have "toString16 (Math_round (real (16 * x + y))) = hexDigits (16 * x + y)"
    unfolding toString16_def Let_def by (simp only: nat_int) simp
  then show ?thesis using hexDigits_byte[OF assms] by simp
qed

lemma rgbToHex_hexToRgb:
  assumes "isValidHexColor hx"
  shows "rgbToHex (hexToRgb hx) = toLowerCase hx"
proof -
  from assms obtain a b c d e f where hxeq: "hx = [CHR ''#'', a, b, c, d, e, f]"
    and d: "isHexDigit a" "isHexDigit b" "isHexDigit c" "isHexDigit d" "isHexDigit e" "isHexDigit f"
    by (rule isValidHexColor_shape)
  have low: "toLowerCase (x # xs) = toLowerCase [x] @ toLowerCase xs" for x xs
    by (simp add: toLowerCase_def)
  have "rgbToHex (hexToRgb hx) = CHR ''#'' # [digitChar (digitVal a)] @ [digitChar (digitVal b)]
      @ [digitChar (digitVal c)] @ [digitChar (digitVal d)] @ [digitChar (digitVal e)]
      @ [digitChar (digitVal f)]"
    unfolding hxeq hexToRgb_valid[OF d] rgbToHex_def
    using toString16_byte[OF hexDigit_facts(7)[OF d(1)] hexDigit_facts(7)[OF d(2)]]
      toString16_byte[OF hexDigit_facts(7)[OF d(3)] hexDigit_facts(7)[OF d(4)]]
      toString16_byte[OF hexDigit_facts(7)[OF d(5)] hexDigit_facts(7)[OF d(6)]]
    by simp
  also have "\<dots> = toLowerCase hx"
    unfolding hxeq hexDigit_facts(8)[OF d(1)] hexDigit_facts(8)[OF d(2)] hexDigit_facts(8)[OF d(3)]
      hexDigit_facts(8)[OF d(4)] hexDigit_facts(8)[OF d(5)] hexDigit_facts(8)[OF d(6)]
    by (simp add: toLowerCase_def)
  finally show ?thesis .
qed

lemma rgbToHex_valid:
  assumes "isHexDigit a" "isHexDigit b" "isHexDigit c" "isHexDigit d" "isHexDigit e" "isHexDigit f"
  shows "rgbToHex [Some (real (16 * digitVal a + digitVal b)), Some (real (16 * digitVal c + digitVal d)),
     Some (real (16 * digitVal e + digitVal f))]
   = [CHR ''#'', digitChar (digitVal a), digitChar (digitVal b), digitChar (digitVal c),
      digitChar (digitVal d), digitChar (digitVal e), digitChar (digitVal f)]"
  unfolding rgbToHex_def
  using toString16_byte[OF hexDigit_facts(7)[OF assms(1)] hexDigit_facts(7)[OF assms(2)]]
    toString16_byte[OF hexDigit_facts(7)[OF assms(3)] hexDigit_facts(7)[OF assms(4)]]
    toString16_byte[OF hexDigit_facts(7)[OF assms(5)] hexDigit_facts(7)[OF assms(6)]]
  by simp

lemma hexToRgb_rgbToHex_hexToRgb:
  assumes "isValidHexColor hx"
  shows "hexToRgb (rgbToHex (hexToRgb hx)) = hexToRgb hx"
proof -
  from assms obtain a b c d e f where hxeq: "hx = [CHR ''#'', a, b, c, d, e, f]"
    and d: "isHexDigit a" "isHexDigit b" "isHexDigit c" "isHexDigit d" "isHexDigit e" "isHexDigit f"
    by (rule isValidHexColor_shape)
  show ?thesis
    unfolding hxeq hexToRgb_valid[OF d] rgbToHex_valid[OF d]
    by (simp add: hexToRgb_valid hexDigit_facts(9,10) d)
qed

lemma hexToRgb_channels:
  assumes "isValidHexColor hx"
  obtains r g b :: nat where "hexToRgb hx = [Some (real r), Some (real g), Some (real b)]"
    "r \<le> 255" "g \<le> 255" "b \<le> 255"
proof -
  from assms obtain a b c d e f where hxeq: "hx = [CHR ''#'', a, b, c, d, e, f]"
    and d: "isHexDigit a" "isHexDigit b" "isHexDigit c" "isHexDigit d" "isHexDigit e" "isHexDigit f"
    by (rule isValidHexColor_shape)
  have "16 * digitVal a + digitVal b \<le> 255" "16 * digitVal c + digitVal d \<le> 255"
    "16 * digitVal e + digitVal f \<le> 255"
    using hexDigit_facts(7)[OF d(1)] hexDigit_facts(7)[OF d(2)] hexDigit_facts(7)[OF d(3)]
      hexDigit_facts(7)[OF d(4)] hexDigit_facts(7)[OF d(5)] hexDigit_facts(7)[OF d(6)]
    by linarith+
  then show thesis using that hexToRgb_valid[OF d] hxeq by blast
qed

section \<open>Linear gradient\<close>

lemma roundsLikeDouble_int:
  assumes "roundsLikeDouble fl" "\<bar>k\<bar> \<le> 255"
  shows "fl (of_int k) = of_int k"
  using assms unfolding roundsLikeDouble_def by blast

lemma roundsLikeDouble_nat:
  assumes "roundsLikeDouble fl" "k \<le> 255"
  shows "fl (real k) = real k"
  using roundsLikeDouble_int[OF assms(1), of "int k"] assms(2) by simp

lemma roundsLikeDouble_err:
  assumes "roundsLikeDouble fl" "\<bar>x\<bar> \<le> 512"
  shows "\<bar>fl x - x\<bar> \<le> 1 / 2 ^ 40"
  using assms unfolding roundsLikeDouble_def by blast

lemma interpolate_error:
  fixes a b q ratio :: real
  assumes fl: "roundsLikeDouble fl"
    and a: "0 \<le> a" "a \<le> 255" and b: "0 \<le> b" "b \<le> 255"
    and q: "0 \<le> q" "q \<le> 1"
    and r: "\<bar>ratio - q\<bar> \<le> 1 / 2 ^ 40"
  shows "\<bar>interpolate fl a b ratio - (a * (1 - q) + b * q)\<bar> \<le> 768 / 2 ^ 40"
proof -
  define e :: real where "e = 1 / 2 ^ 40"
  have e: "0 < e" "e \<le> 1 / 1000" by (simp_all add: e_def)
  note err = roundsLikeDouble_err[OF fl, folded e_def]
  have r': "\<bar>ratio - q\<bar> \<le> e" using r by (simp add: e_def)
  define t where "t = fl (1 - ratio)"
  have "\<bar>1 - ratio\<bar> \<le> 512" using r' q e by (simp add: abs_if split: if_splits)
  then have "\<bar>t - (1 - ratio)\<bar> \<le> e" unfolding t_def by (rule err)
  then have t: "\<bar>t - (1 - q)\<bar> \<le> 2 * e" using r' by linarith
  have tb: "\<bar>t\<bar> \<le> 1 + 2 * e" using t q by linarith
  define p1 where "p1 = fl (a * t)"
  have at: "\<bar>a * t - a * (1 - q)\<bar> \<le> 255 * (2 * e)"
  proof -
    have "\<bar>a * t - a * (1 - q)\<bar> = a * \<bar>t - (1 - q)\<bar>"
      using a by (simp add: abs_mult right_diff_distrib[symmetric])
    also have "\<dots> \<le> 255 * (2 * e)" by (rule mult_mono) (use a t in simp_all)
    finally show ?thesis .
  qed
  have aq: "0 \<le> a * (1 - q)" "a * (1 - q) \<le> a" using a q by (simp_all add: mult_left_le)
  have "\<bar>a * t\<bar> \<le> 512" using at aq a e by linarith
  then have "\<bar>p1 - a * t\<bar> \<le> e" unfolding p1_def by (rule err)
  then have p1: "\<bar>p1 - a * (1 - q)\<bar> \<le> 511 * e" using at by linarith
  define p2 where "p2 = fl (b * ratio)"
  have br: "\<bar>b * ratio - b * q\<bar> \<le> 255 * e"
  proof -
    have "\<bar>b * ratio - b * q\<bar> = b * \<bar>ratio - q\<bar>"
      using b by (simp add: abs_mult right_diff_distrib[symmetric])
    also have "\<dots> \<le> 255 * e" by (rule mult_mono) (use b r' in simp_all)
    finally show ?thesis .
  qed
  have bq: "0 \<le> b * q" "b * q \<le> b" using b q by (simp_all add: mult_left_le)
  have "\<bar>b * ratio\<bar> \<le> 512" using br bq b e by linarith
  then have "\<bar>p2 - b * ratio\<bar> \<le> e" unfolding p2_def by (rule err)
  then have p2: "\<bar>p2 - b * q\<bar> \<le> 256 * e" using br by linarith
  have mix: "a * (1 - q) + b * q \<le> 255"
  proof -
    define X Y where "X = a * (1 - q)" and "Y = b * q"
    have "X \<le> 255 * (1 - q)" unfolding X_def
      by (rule mult_right_mono) (use a q in simp_all)
    then have "X \<le> 255 - 255 * q" by (simp add: algebra_simps)
    moreover have "Y \<le> 255 * q" unfolding Y_def
      by (rule mult_right_mono) (use b q in simp_all)
    ultimately have "X + Y \<le> 255" by linarith
    then show ?thesis by (simp add: X_def Y_def)
  qed
  have "\<bar>p1 + p2\<bar> \<le> 512" using p1 p2 aq bq mix e by linarith
  then have "\<bar>fl (p1 + p2) - (p1 + p2)\<bar> \<le> e" by (rule err)
  then have "\<bar>fl (p1 + p2) - (a * (1 - q) + b * q)\<bar> \<le> 768 * e" using p1 p2 by linarith
  then show ?thesis by (simp add: interpolate_def t_def p1_def p2_def e_def)
qed


lemma Math_round_nearest:
  fixes N :: int and D :: nat and V :: real
  assumes D: "1 \<le> D" "D \<le> 99"
    and V: "\<bar>V - of_int N / real D\<bar> \<le> 768 / 2 ^ 40"
  shows "\<bar>Math_round V - of_int N / real D\<bar> \<le> 1 / 2"
proof -
  define c where "c = \<lfloor>V + 1/2\<rfloor>"
  define d where "d = real D"
  define E where "E = real_of_int N / d"
  define e :: real where "e = 768 / 2 ^ 40"
  have d: "1 \<le> d" "d \<le> 99" using D by (simp_all add: d_def)
  have dE: "d * E = of_int N" using d by (simp add: E_def)
  have VE: "\<bar>V - E\<bar> \<le> e" using V by (simp add: E_def d_def e_def)
  have small: "2 * d * e < 1"
  proof -
    have "2 * d * e \<le> 2 * 99 * e" using d by (simp add: e_def)
    also have "\<dots> < 1" by (simp add: e_def)
    finally show ?thesis .
  qed
  have c1: "of_int c \<le> V + 1/2" unfolding c_def by (rule of_int_floor_le)
  have c2: "V + 1/2 < of_int c + 1" unfolding c_def by linarith
  define X where "X = d * real_of_int c"
  have conv1: "real_of_int (2 * int D * c - 2 * N - int D) = 2 * X - 2 * of_int N - d"
    by (simp add: X_def d_def)
  have conv2: "real_of_int (2 * int D * c - 2 * N + int D) = 2 * X - 2 * of_int N + d"
    by (simp add: X_def d_def)
  have "of_int c - E - 1/2 \<le> e" using c1 VE by linarith
  then have "(2 * d) * (of_int c - E - 1/2) \<le> (2 * d) * e"
    by (rule mult_left_mono) (use d in simp)
  then have "2 * X - 2 * (d * E) - d \<le> 2 * d * e" by (simp add: algebra_simps X_def)
  then have "2 * X - 2 * of_int N - d < 1" unfolding dE using small by linarith
  then have "real_of_int (2 * int D * c - 2 * N - int D) < 1" by (simp only: conv1)
  then have up: "2 * int D * c - 2 * N - int D \<le> 0" by linarith
  have "- e < of_int c - E + 1/2" using c2 VE by linarith
  then have "(2 * d) * (- e) < (2 * d) * (of_int c - E + 1/2)"
    by (rule mult_strict_left_mono) (use d in simp)
  then have "- (2 * d * e) < 2 * X - 2 * (d * E) + d" by (simp add: algebra_simps X_def)
  then have "- 1 < 2 * X - 2 * of_int N + d" unfolding dE using small by linarith
  then have "- 1 < real_of_int (2 * int D * c - 2 * N + int D)" by (simp only: conv2)
  then have lo: "0 \<le> 2 * int D * c - 2 * N + int D" by linarith
  have "real_of_int (2 * int D * c - 2 * N - int D) \<le> 0" using up by linarith
  then have "2 * X - 2 * (d * E) - d \<le> 0" by (simp only: conv1 dE)
  then have "(2 * d) * (of_int c - E - 1/2) \<le> (2 * d) * 0" by (simp add: algebra_simps X_def)
  then have u: "of_int c - E - 1/2 \<le> 0" by (rule mult_left_le_imp_le) (use d in simp)
  have "0 \<le> real_of_int (2 * int D * c - 2 * N + int D)" using lo by linarith
  then have "0 \<le> 2 * X - 2 * (d * E) + d" by (simp only: conv2 dE)
  then have "(2 * d) * 0 \<le> (2 * d) * (of_int c - E + 1/2)" by (simp add: algebra_simps X_def)
  then have l: "0 \<le> of_int c - E + 1/2" by (rule mult_left_le_imp_le) (use d in simp)
  have "\<bar>of_int c - E\<bar> \<le> 1 / 2" using u l by linarith
  then show ?thesis by (simp add: Math_round_def c_def E_def d_def)
qed

lemma interpolate_nearest:
  fixes a b i n :: nat
  assumes fl: "roundsLikeDouble fl" and a: "a \<le> 255" and b: "b \<le> 255"
    and n: "2 \<le> n" "n \<le> 100" and i: "i < n"
  defines "ratio \<equiv> fl (real i / fl (real n - 1))"
  defines "E \<equiv> real a * (1 - real i / (real n - 1)) + real b * (real i / (real n - 1))"
  shows "\<bar>Math_round (interpolate fl (real a) (real b) ratio) - E\<bar> \<le> 1 / 2"
proof -
  define D where "D = n - 1"
  define q where "q = real i / real D"
  have D: "1 \<le> D" "D \<le> 99" "i \<le> D" using n i by (simp_all add: D_def)
  have nD: "real n - 1 = real D" using n by (simp add: D_def of_nat_diff)
  have flD: "fl (real D) = real D" by (rule roundsLikeDouble_nat[OF fl]) (use D in simp)
  have q: "0 \<le> q" "q \<le> 1" using D by (simp_all add: q_def)
  have "\<bar>q\<bar> \<le> 512" using q by simp
  then have r: "\<bar>ratio - q\<bar> \<le> 1 / 2 ^ 40"
    unfolding ratio_def nD flD q_def[symmetric] by (rule roundsLikeDouble_err[OF fl])
  have err: "\<bar>interpolate fl (real a) (real b) ratio - (real a * (1 - q) + real b * q)\<bar> \<le> 768 / 2 ^ 40"
    by (rule interpolate_error[OF fl _ _ _ _ q r]) (use a b in simp_all)
  define N where "N = int (a * (D - i) + b * i)"
  have EN: "real a * (1 - q) + real b * q = of_int N / real D"
    using D by (simp add: N_def q_def of_nat_diff field_simps)
  have "\<bar>Math_round (interpolate fl (real a) (real b) ratio) - of_int N / real D\<bar> \<le> 1 / 2"
    by (rule Math_round_nearest[OF D(1,2)]) (use err EN in simp)
  then show ?thesis unfolding E_def nD q_def[symmetric] EN .
qed

lemma Math_round_is_int: "Math_round x = of_int \<lfloor>x + 1/2\<rfloor>"
  by (simp add: Math_round_def)

lemma interpolate_first:
  assumes fl: "roundsLikeDouble fl" and a: "a \<le> 255"
  shows "interpolate fl (real a) b (fl (real 0 / d)) = real a"
proof -
  have z: "fl 0 = 0" using roundsLikeDouble_int[OF fl, of 0] by simp
  have o: "fl 1 = 1" using roundsLikeDouble_int[OF fl, of 1] by simp
  have fa: "fl (real a) = real a" by (rule roundsLikeDouble_nat[OF fl a])
  show ?thesis by (simp add: interpolate_def z o fa)
qed

lemma interpolate_last:
  assumes fl: "roundsLikeDouble fl" and b: "b \<le> 255" and d: "d \<noteq> 0"
  shows "interpolate fl a (real b) (fl (d / d)) = real b"
proof -
  have z: "fl 0 = 0" using roundsLikeDouble_int[OF fl, of 0] by simp
  have o: "fl 1 = 1" using roundsLikeDouble_int[OF fl, of 1] by simp
  have fb: "fl (real b) = real b" by (rule roundsLikeDouble_nat[OF fl b])
  show ?thesis using d by (simp add: interpolate_def z o fb)
qed


lemma gradient_loop_eq:
  assumes "i \<le> n"
  shows "gradient_loop fl rgb1 rgb2 (real n) i = map (gradient_step fl rgb1 rgb2 (real n)) [i..<n]"
  using assms
proof (induction "n - i" arbitrary: i)
  case 0
  then have "i = n" by simp
  then show ?case by (subst gradient_loop.simps) simp
next
  case (Suc k)
  then have lt: "i < n" by simp
  then have "gradient_loop fl rgb1 rgb2 (real n) i =
      gradient_step fl rgb1 rgb2 (real n) i # gradient_loop fl rgb1 rgb2 (real n) (Suc i)"
    by (subst gradient_loop.simps) simp
  also have "gradient_loop fl rgb1 rgb2 (real n) (Suc i)
      = map (gradient_step fl rgb1 rgb2 (real n)) [Suc i..<n]"
    using Suc lt by (intro Suc.hyps(1)) simp_all
  finally show ?case using lt by (simp add: upt_conv_Cons)
qed

lemma gradient_step_channels:
  "gradient_step fl [Some r1, Some g1, Some b1] [Some r2, Some g2, Some b2] steps i =
     rgbToHex [Some (Math_round (interpolate fl r1 r2 (fl (real i / fl (steps - 1))))),
               Some (Math_round (interpolate fl g1 g2 (fl (real i / fl (steps - 1))))),
               Some (Math_round (interpolate fl b1 b2 (fl (real i / fl (steps - 1)))))]"
  by (simp add: gradient_step_def nth_js_def Let_def)

lemma roundsLikeDouble_exact: "roundsLikeDouble (\<lambda>x. x)"
  by (simp add: roundsLikeDouble_def)

lemma round_even_of_int: "round_even (of_int m) = m"
  by (simp add: round_even_def)

lemma round_even_0: "round_even 0 = 0"
  by (simp add: round_even_def)

lemma round_even_err: "\<bar>of_int (round_even y) - y\<bar> \<le> 1 / 2"
proof -
  have "of_int \<lfloor>y\<rfloor> \<le> y" "y < of_int \<lfloor>y\<rfloor> + 1" by linarith+
  then show ?thesis by (auto simp add: round_even_def Let_def)
qed

lemma exponent_up_le:
  assumes "x < 2 ^ Suc m"
  shows "exponent_up k x \<le> int m"
  using assms
proof (induction k arbitrary: x m)
  case 0
  then show ?case by (subst exponent_up.simps) simp
next
  case (Suc k)
  show ?case
  proof (cases "x < 2")
    case True
    then show ?thesis by (subst exponent_up.simps) simp
  next
    case False
    then have "m \<noteq> 0" using Suc.prems by (cases m) auto
    then obtain m' where m: "m = Suc m'" by (cases m) auto
    have "x / 2 < 2 ^ Suc m'" using Suc.prems by (simp add: m)
    then have "exponent_up k (x / 2) \<le> int m'" by (rule Suc.IH)
    then show ?thesis using False by (subst exponent_up.simps) (simp add: m)
  qed
qed

lemma exponent_down_le: "exponent_down k x \<le> 0"
proof (induction k arbitrary: x)
  case 0
  then show ?case by (subst exponent_down.simps) simp
next
  case (Suc k)
  have "exponent_down k (x * 2) \<le> 0" by (rule Suc.IH)
  then show ?case by (subst exponent_down.simps) simp
qed

lemma exponent_le:
  assumes "\<bar>x\<bar> \<le> 512"
  shows "exponent x \<le> 9"
proof -
  have "\<bar>x\<bar> < 2 ^ Suc 9" using assms by simp
  then have "exponent_up 1023 \<bar>x\<bar> \<le> int 9" by (rule exponent_up_le)
  moreover have "exponent_down 1022 \<bar>x\<bar> \<le> 0" by (rule exponent_down_le)
  ultimately show ?thesis by (simp add: exponent_def)
qed

lemma ulp_small:
  assumes "\<bar>x\<bar> \<le> 512"
  obtains n where "43 \<le> n" "ulp x = 1 / 2 ^ n"
proof -
  have e: "exponent x - 52 \<le> - 43" using exponent_le[OF assms] by simp
  show ?thesis
  proof (rule that[of "nat (- (exponent x - 52))"])
    show "43 \<le> nat (- (exponent x - 52))" using e by simp
    show "ulp x = 1 / 2 ^ nat (- (exponent x - 52))" using e by (simp add: ulp_def pow2_def)
  qed
qed

lemma roundsLikeDouble_double_round: "roundsLikeDouble double_round"
  unfolding roundsLikeDouble_def
proof (intro conjI allI impI)
  fix k :: int
  assume k: "\<bar>k\<bar> \<le> 255"
  then have "\<bar>real_of_int k\<bar> \<le> 512" by simp
  then obtain n where n: "ulp (of_int k) = 1 / 2 ^ n" by (rule ulp_small)
  have "real_of_int k / (1 / 2 ^ n) = real_of_int (k * 2 ^ n)" by simp
  then have "round_even (real_of_int k / (1 / 2 ^ n)) = k * 2 ^ n"
    by (simp only: round_even_of_int)
  then show "double_round (of_int k) = of_int k" by (simp add: double_round_def n)
next
  fix x :: real
  assume x: "\<bar>x\<bar> \<le> 512"
  then obtain n where n: "43 \<le> n" "ulp x = 1 / 2 ^ n" by (rule ulp_small)
  define z where "z = of_int (round_even (x * 2 ^ n)) - x * 2 ^ n"
  have z: "\<bar>z\<bar> \<le> 1 / 2" unfolding z_def by (rule round_even_err)
  have p: "(2::real) ^ 40 \<le> 2 ^ n" using n(1) by (intro power_increasing) simp_all
  have eq: "double_round x - x = z / 2 ^ n"
    by (simp add: double_round_def n(2) z_def diff_divide_distrib round_even_0)
  have "\<bar>z / 2 ^ n\<bar> = \<bar>z\<bar> / 2 ^ n" by (simp add: abs_divide)
  also have "\<dots> \<le> 1 / 2 ^ n" using z by (intro divide_right_mono) simp_all
  also have "\<dots> \<le> 1 / 2 ^ 40" using p by (intro divide_left_mono) simp_all
  finally show "\<bar>double_round x - x\<bar> \<le> 1 / 2 ^ 40" unfolding eq .
qed

lemma double_round_examples:
  "double_round (1 / 10) = 3602879701896397 / 2 ^ 55"
  "double_round (1 + 1 / 2 ^ 53) = 1"
  "double_round (1 + 3 / 2 ^ 53) = 1 + 1 / 2 ^ 51"
  "double_round 255 = 255"
  by (simp_all add: double_round_def ulp_def exponent_def exponent_up.simps
      exponent_down.simps pow2_def round_even_def Let_def)

lemma gradient_hex_facts:
  "isValidHexColor ''#010101''" "isValidHexColor ''#1b1c1d''"
  "hexToRgb ''#010101'' = [Some 1, Some 1, Some 1]"
  "hexToRgb ''#1b1c1d'' = [Some 27, Some 28, Some 29]"
  "rgbToHex [Some 1, Some 1, Some 1] = ''#010101''"
  "rgbToHex [Some 5, Some 5, Some 6] = ''#050506''"
  "rgbToHex [Some 10, Some 10, Some 10] = ''#0a0a0a''"
  "rgbToHex [Some 14, Some 15, Some 15] = ''#0e0f0f''"
  "rgbToHex [Some 18, Some 19, Some 20] = ''#121314''"
  "rgbToHex [Some 23, Some 24, Some 24] = ''#171818''"
  "rgbToHex [Some 27, Some 28, Some 29] = ''#1b1c1d''"
  by code_simp+

lemma README_hex_facts:
  "isValidHexColor ''#FF0000''" "isValidHexColor ''#00FF00''"
  "hexToRgb ''#FF0000'' = [Some 255, Some 0, Some 0]"
  "hexToRgb ''#00FF00'' = [Some 0, Some 255, Some 0]"
  "rgbToHex [Some 255, Some 0, Some 0] = ''#ff0000''"
  "rgbToHex [Some 191, Some 64, Some 0] = ''#bf4000''"
  "rgbToHex [Some 128, Some 128, Some 0] = ''#808000''"
  "rgbToHex [Some 64, Some 191, Some 0] = ''#40bf00''"
  "rgbToHex [Some 0, Some 255, Some 0] = ''#00ff00''"
  by code_simp+

lemmas double_round_eval = double_round_def ulp_def exponent_def exponent_up.simps
  exponent_down.simps pow2_def round_even_def Let_def interpolate_def Math_round_def

lemma LinearGradient_exact_7:
  "LinearGradient (\<lambda>x. x) ''#010101'' ''#1b1c1d'' (real 7)
     = Inr [''#010101'', ''#050606'', ''#0a0a0a'', ''#0e0f0f'', ''#121314'', ''#171818'', ''#1b1c1d'']"
  by code_simp

lemma LinearGradient_double_7:
  "LinearGradient double_round ''#010101'' ''#1b1c1d'' (real 7)
     = Inr [''#010101'', ''#050506'', ''#0a0a0a'', ''#0e0f0f'', ''#121314'', ''#171818'', ''#1b1c1d'']"
proof -
  have u: "[0..<7] = [0, 1, 2, 3, 4, 5, 6::nat]" by code_simp
  have "gradient_loop double_round rgb1 rgb2 (real 7) 0
      = map (gradient_step double_round rgb1 rgb2 (real 7)) [0..<7]" for rgb1 rgb2
    by (rule gradient_loop_eq) simp
  then have l: "gradient_loop double_round rgb1 rgb2 7 0
      = map (gradient_step double_round rgb1 rgb2 7) [0, 1, 2, 3, 4, 5, 6]" for rgb1 rgb2
    unfolding u by simp
  show ?thesis
    by (simp add: LinearGradient_def Let_def gradient_hex_facts(1-4) l gradient_step_channels)
      (simp add: double_round_eval gradient_hex_facts(5-))
qed

lemma LinearGradient_double_5:
  "LinearGradient double_round ''#FF0000'' ''#00FF00'' (real 5)
     = Inr [''#ff0000'', ''#bf4000'', ''#808000'', ''#40bf00'', ''#00ff00'']"
proof -
  have u: "[0..<5] = [0, 1, 2, 3, 4::nat]" by code_simp
  have "gradient_loop double_round rgb1 rgb2 (real 5) 0
      = map (gradient_step double_round rgb1 rgb2 (real 5)) [0..<5]" for rgb1 rgb2
    by (rule gradient_loop_eq) simp
  then have l: "gradient_loop double_round rgb1 rgb2 5 0
      = map (gradient_step double_round rgb1 rgb2 5) [0, 1, 2, 3, 4]" for rgb1 rgb2
    unfolding u by simp
  show ?thesis
    by (simp add: LinearGradient_def Let_def README_hex_facts(1-4) l gradient_step_channels)
      (simp add: double_round_eval README_hex_facts(5-))
qed

lemma upper_lower_red:
  "hexToRgb ''#ff0000'' = hexToRgb ''#FF0000''" "toLowerCase ''#FF0000'' = ''#ff0000''"
  by code_simp+

text \<open>
  Claim C9. For valid hex colours \<open>a\<close> and \<open>b\<close> and an integer number of steps in \<open>[2, 100]\<close>,
  \<^verbatim>\<open>LinearGradient\<close> returns exactly that many hex colours; the channels of colour \<open>i\<close> are
  integers nearest to the linear interpolation of the device channels of \<open>a\<close> and \<open>b\<close> at
  \<open>i / (steps - 1)\<close> (where the interpolation lies exactly between two integers, either of
  them: the double arithmetic decides); the first colour is the colour \<open>a\<close> and the last the
  colour \<open>b\<close>, with exactly their device channels. As strings they are \<open>a\<close> and \<open>b\<close> in lower
  case. This holds for every rounding \<open>fl\<close> of the operations that keeps the integers up to
  \<open>255\<close> and moves a value up to \<open>512\<close> by at most \<open>1 / 2 ^ 40\<close>: the rounding of doubles
  is one, the exact arithmetic another.
\<close>

theorem LinearGradient_endpoints:
  assumes "isValidHexColor color1" "isValidHexColor color2" "2 \<le> n" "n \<le> 100"
    and "roundsLikeDouble fl"
  shows "\<exists>gradient r1 g1 b1 r2 g2 b2.
           LinearGradient fl color1 color2 (real n) = Inr gradient
           \<and> length gradient = n
           \<and> hexToRgb color1 = [Some r1, Some g1, Some b1]
           \<and> hexToRgb color2 = [Some r2, Some g2, Some b2]
           \<and> (\<forall>i<n. \<exists>r g b :: int.
                 gradient ! i = rgbToHex [Some (of_int r), Some (of_int g), Some (of_int b)]
                 \<and> \<bar>of_int r - (r1 * (1 - real i / (real n - 1)) + r2 * (real i / (real n - 1)))\<bar> \<le> 1 / 2
                 \<and> \<bar>of_int g - (g1 * (1 - real i / (real n - 1)) + g2 * (real i / (real n - 1)))\<bar> \<le> 1 / 2
                 \<and> \<bar>of_int b - (b1 * (1 - real i / (real n - 1)) + b2 * (real i / (real n - 1)))\<bar> \<le> 1 / 2)
           \<and> hexToRgb (hd gradient) = hexToRgb color1
           \<and> hexToRgb (last gradient) = hexToRgb color2
           \<and> hd gradient = toLowerCase color1 \<and> last gradient = toLowerCase color2"
proof -
  note fl = assms(5)
  obtain r1 g1 b1 :: nat where c1: "hexToRgb color1 = [Some (real r1), Some (real g1), Some (real b1)]"
    and le1: "r1 \<le> 255" "g1 \<le> 255" "b1 \<le> 255"
    using assms(1) by (rule hexToRgb_channels)
  obtain r2 g2 b2 :: nat where c2: "hexToRgb color2 = [Some (real r2), Some (real g2), Some (real b2)]"
    and le2: "r2 \<le> 255" "g2 \<le> 255" "b2 \<le> 255"
    using assms(2) by (rule hexToRgb_channels)
  define gradient where
    "gradient = map (gradient_step fl (hexToRgb color1) (hexToRgb color2) (real n)) [0..<n]"
  have run: "LinearGradient fl color1 color2 (real n) = Inr gradient"
    using assms by (simp add: LinearGradient_def Let_def gradient_loop_eq gradient_def)
  have len: "length gradient = n" by (simp add: gradient_def)
  have ne: "gradient \<noteq> []" using len assms(3) by auto
  have nth: "gradient ! i = gradient_step fl (hexToRgb color1) (hexToRgb color2) (real n) i"
    if "i < n" for i
    using that by (simp add: gradient_def)
  have nD: "real n - 1 = real (n - 1)" using assms(3) by (simp add: of_nat_diff)
  have flD: "fl (real n - 1) = real (n - 1)"
    unfolding nD by (rule roundsLikeDouble_nat[OF fl]) (use assms(4) in simp)
  have first: "hd gradient = rgbToHex (hexToRgb color1)"
  proof -
    have "hd gradient = gradient ! 0" by (rule hd_conv_nth[OF ne])
    also have "\<dots> = gradient_step fl (hexToRgb color1) (hexToRgb color2) (real n) 0"
      using assms(3) by (intro nth) simp
    also have "\<dots> = rgbToHex (hexToRgb color1)"
      unfolding c1 c2 gradient_step_channels
      by (simp only: interpolate_first[OF fl le1(1)] interpolate_first[OF fl le1(2)]
          interpolate_first[OF fl le1(3)] Math_round_of_nat)
    finally show ?thesis .
  qed
  have final: "last gradient = rgbToHex (hexToRgb color2)"
  proof -
    have d: "real (n - 1) \<noteq> 0" using assms(3) by simp
    have "last gradient = gradient ! (n - 1)" using last_conv_nth[OF ne] by (simp add: len)
    also have "\<dots> = gradient_step fl (hexToRgb color1) (hexToRgb color2) (real n) (n - 1)"
      using assms(3) by (intro nth) simp
    also have "\<dots> = rgbToHex (hexToRgb color2)"
      unfolding c1 c2 gradient_step_channels flD
      by (simp only: interpolate_last[OF fl le2(1) d] interpolate_last[OF fl le2(2) d]
          interpolate_last[OF fl le2(3) d] Math_round_of_nat)
    finally show ?thesis .
  qed
  have steps: "\<forall>i<n. \<exists>r g b :: int.
      gradient ! i = rgbToHex [Some (of_int r), Some (of_int g), Some (of_int b)]
      \<and> \<bar>of_int r - (real r1 * (1 - real i / (real n - 1)) + real r2 * (real i / (real n - 1)))\<bar> \<le> 1 / 2
      \<and> \<bar>of_int g - (real g1 * (1 - real i / (real n - 1)) + real g2 * (real i / (real n - 1)))\<bar> \<le> 1 / 2
      \<and> \<bar>of_int b - (real b1 * (1 - real i / (real n - 1)) + real b2 * (real i / (real n - 1)))\<bar> \<le> 1 / 2"
  proof (intro allI impI)
    fix i assume i: "i < n"
    define ratio where "ratio = fl (real i / fl (real n - 1))"
    note near = interpolate_nearest[OF fl _ _ assms(3,4) i, folded ratio_def]
    show "\<exists>r g b :: int.
      gradient ! i = rgbToHex [Some (of_int r), Some (of_int g), Some (of_int b)]
      \<and> \<bar>of_int r - (real r1 * (1 - real i / (real n - 1)) + real r2 * (real i / (real n - 1)))\<bar> \<le> 1 / 2
      \<and> \<bar>of_int g - (real g1 * (1 - real i / (real n - 1)) + real g2 * (real i / (real n - 1)))\<bar> \<le> 1 / 2
      \<and> \<bar>of_int b - (real b1 * (1 - real i / (real n - 1)) + real b2 * (real i / (real n - 1)))\<bar> \<le> 1 / 2"
    proof (intro exI conjI)
      show "gradient ! i = rgbToHex
          [Some (of_int \<lfloor>interpolate fl (real r1) (real r2) ratio + 1/2\<rfloor>),
           Some (of_int \<lfloor>interpolate fl (real g1) (real g2) ratio + 1/2\<rfloor>),
           Some (of_int \<lfloor>interpolate fl (real b1) (real b2) ratio + 1/2\<rfloor>)]"
        unfolding nth[OF i] c1 c2 gradient_step_channels ratio_def Math_round_is_int ..
      show "\<bar>of_int \<lfloor>interpolate fl (real r1) (real r2) ratio + 1/2\<rfloor>
          - (real r1 * (1 - real i / (real n - 1)) + real r2 * (real i / (real n - 1)))\<bar> \<le> 1 / 2"
        using near[OF le1(1) le2(1)] unfolding Math_round_is_int .
      show "\<bar>of_int \<lfloor>interpolate fl (real g1) (real g2) ratio + 1/2\<rfloor>
          - (real g1 * (1 - real i / (real n - 1)) + real g2 * (real i / (real n - 1)))\<bar> \<le> 1 / 2"
        using near[OF le1(2) le2(2)] unfolding Math_round_is_int .
      show "\<bar>of_int \<lfloor>interpolate fl (real b1) (real b2) ratio + 1/2\<rfloor>
          - (real b1 * (1 - real i / (real n - 1)) + real b2 * (real i / (real n - 1)))\<bar> \<le> 1 / 2"
        using near[OF le1(3) le2(3)] unfolding Math_round_is_int .
    qed
  qed
  have e1: "hexToRgb (hd gradient) = hexToRgb color1" "hd gradient = toLowerCase color1"
    unfolding first by (rule hexToRgb_rgbToHex_hexToRgb[OF assms(1)], rule rgbToHex_hexToRgb[OF assms(1)])
  have e2: "hexToRgb (last gradient) = hexToRgb color2" "last gradient = toLowerCase color2"
    unfolding final by (rule hexToRgb_rgbToHex_hexToRgb[OF assms(2)], rule rgbToHex_hexToRgb[OF assms(2)])
  show ?thesis
    by (intro exI[of _ gradient] exI[of _ "real r1"] exI[of _ "real g1"] exI[of _ "real b1"]
        exI[of _ "real r2"] exI[of _ "real g2"] exI[of _ "real b2"] conjI)
      (rule run len c1 c2 steps e1 e2)+
qed

theorem LinearGradient_endpoints_witness:
  "isValidHexColor ''#010101'' \<and> isValidHexColor ''#1b1c1d'' \<and> (2::nat) \<le> 7 \<and> (7::nat) \<le> 100
   \<and> roundsLikeDouble double_round \<and> roundsLikeDouble (\<lambda>x. x)
   \<and> LinearGradient double_round ''#010101'' ''#1b1c1d'' (real 7)
       = Inr [''#010101'', ''#050506'', ''#0a0a0a'', ''#0e0f0f'', ''#121314'', ''#171818'', ''#1b1c1d'']
   \<and> LinearGradient (\<lambda>x. x) ''#010101'' ''#1b1c1d'' (real 7)
       = Inr [''#010101'', ''#050606'', ''#0a0a0a'', ''#0e0f0f'', ''#121314'', ''#171818'', ''#1b1c1d'']
   \<and> isValidHexColor ''#FF0000'' \<and> isValidHexColor ''#00FF00''
   \<and> LinearGradient double_round ''#FF0000'' ''#00FF00'' (real 5)
       = Inr [''#ff0000'', ''#bf4000'', ''#808000'', ''#40bf00'', ''#00ff00'']
   \<and> hexToRgb ''#ff0000'' = hexToRgb ''#FF0000''
   \<and> toLowerCase ''#FF0000'' = ''#ff0000''"
proof -
  have n7: "(2::nat) \<le> 7" "(7::nat) \<le> 100" by simp_all
  have goal: "isValidHexColor ''#010101'' \<and> isValidHexColor ''#1b1c1d'' \<and> (2::nat) \<le> 7 \<and> (7::nat) \<le> 100
   \<and> roundsLikeDouble double_round \<and> roundsLikeDouble (\<lambda>x. x)
   \<and> LinearGradient double_round ''#010101'' ''#1b1c1d'' (real 7)
       = Inr [''#010101'', ''#050506'', ''#0a0a0a'', ''#0e0f0f'', ''#121314'', ''#171818'', ''#1b1c1d'']
   \<and> LinearGradient (\<lambda>x. x) ''#010101'' ''#1b1c1d'' (real 7)
       = Inr [''#010101'', ''#050606'', ''#0a0a0a'', ''#0e0f0f'', ''#121314'', ''#171818'', ''#1b1c1d'']
   \<and> isValidHexColor ''#FF0000'' \<and> isValidHexColor ''#00FF00''
   \<and> LinearGradient double_round ''#FF0000'' ''#00FF00'' (real 5)
       = Inr [''#ff0000'', ''#bf4000'', ''#808000'', ''#40bf00'', ''#00ff00'']
   \<and> hexToRgb ''#ff0000'' = hexToRgb ''#FF0000''
   \<and> toLowerCase ''#FF0000'' = ''#ff0000''"
    by (intro conjI)
      (rule gradient_hex_facts(1,2) n7 roundsLikeDouble_double_round roundsLikeDouble_exact
        LinearGradient_double_7 LinearGradient_exact_7 README_hex_facts(1,2)
        LinearGradient_double_5 upper_lower_red)+
  from LinearGradient_endpoints[OF gradient_hex_facts(1,2) n7 roundsLikeDouble_double_round]
    LinearGradient_endpoints[OF gradient_hex_facts(1,2) n7 roundsLikeDouble_exact]
    goal
  show ?thesis by - assumption
qed

section \<open>Luminance and contrast\<close>

lemma linearize_range:
  assumes "0 \<le> x" "x \<le> 1"
  shows "0 \<le> linearize x" "linearize x \<le> 1"
proof -
  show "0 \<le> linearize x" using assms by (simp add: linearize_def)
  have "((x + 0.055) / 1.055) powr 2.4 \<le> 1 powr 2.4"
    using assms by (intro powr_mono2) simp_all
  then show "linearize x \<le> 1" using assms by (simp add: linearize_def)
qed

lemma getLuminance_channels:
  assumes "hexToRgb hx = [Some r, Some g, Some b]"
  shows "getLuminance hx =
    Some (0.2126 * linearize (r / 255) + 0.7152 * linearize (g / 255) + 0.0722 * linearize (b / 255))"
  by (simp add: getLuminance_def assms nth_js_def Let_def)

lemma getLuminance_valid:
  assumes "isValidHexColor hx"
  obtains l where "getLuminance hx = Some l" "0 \<le> l" "l \<le> 1"
proof -
  from assms obtain r g b :: nat where c: "hexToRgb hx = [Some (real r), Some (real g), Some (real b)]"
    and le: "r \<le> 255" "g \<le> 255" "b \<le> 255"
    by (rule hexToRgb_channels)
  define lr where "lr = linearize (real r / 255)"
  define lg where "lg = linearize (real g / 255)"
  define lb where "lb = linearize (real b / 255)"
  have r: "0 \<le> lr" "lr \<le> 1" using linearize_range[of "real r / 255"] le by (simp_all add: lr_def)
  have g: "0 \<le> lg" "lg \<le> 1" using linearize_range[of "real g / 255"] le by (simp_all add: lg_def)
  have b: "0 \<le> lb" "lb \<le> 1" using linearize_range[of "real b / 255"] le by (simp_all add: lb_def)
  have "getLuminance hx = Some (0.2126 * lr + 0.7152 * lg + 0.0722 * lb)"
    unfolding lr_def lg_def lb_def by (rule getLuminance_channels[OF c])
  moreover have "0 \<le> 0.2126 * lr + 0.7152 * lg + 0.0722 * lb" using r g b by simp
  moreover have "0.2126 * lr + 0.7152 * lg + 0.0722 * lb \<le> 1"
  proof -
    have "0.2126 * lr \<le> 0.2126" "0.7152 * lg \<le> 0.7152" "0.0722 * lb \<le> 0.0722"
      using r g b by simp_all
    then have "0.2126 * lr + 0.7152 * lg + 0.0722 * lb \<le> 0.2126 + 0.7152 + 0.0722"
      by (intro add_mono)
    then show ?thesis by simp
  qed
  ultimately show thesis using that by blast
qed

lemma toFixed2_le:
  assumes "0 \<le> x" "x \<le> 21"
  shows "toFixed2 x \<le> 21"
proof -
  have "\<lfloor>x * 100 + 1/2\<rfloor> \<le> 2100" using assms by (intro floor_le_iff[THEN iffD2]) simp
  then have "real_of_int \<lfloor>x * 100 + 1/2\<rfloor> \<le> 2100" by linarith
  then show ?thesis using assms by (simp add: toFixed2_def)
qed

lemma calculateContrastRatio_luminances:
  assumes "getLuminance color1 = Some l1" "getLuminance color2 = Some l2" "0 \<le> l1" "0 \<le> l2"
  shows "calculateContrastRatio color1 color2 = Some (toFixed2 ((max l1 l2 + 0.05) / (min l1 l2 + 0.05)))"
proof -
  have "min l1 l2 + 0.05 \<noteq> 0" using assms by (simp add: min_def)
  then show ?thesis by (simp add: calculateContrastRatio_def assms fdiv_def)
qed

lemma calculateContrastRatio_valid:
  assumes "isValidHexColor color1" "isValidHexColor color2"
  obtains ratio where "calculateContrastRatio color1 color2 = Some ratio" "ratio \<le> 21"
proof -
  from assms(1) obtain l1 where l1: "getLuminance color1 = Some l1" "0 \<le> l1" "l1 \<le> 1"
    by (rule getLuminance_valid)
  from assms(2) obtain l2 where l2: "getLuminance color2 = Some l2" "0 \<le> l2" "l2 \<le> 1"
    by (rule getLuminance_valid)
  define mx where "mx = max l1 l2"
  define mn where "mn = min l1 l2"
  define q where "q = (mx + 0.05) / (mn + 0.05)"
  have mx: "0 \<le> mx" "mx \<le> 1" and mn: "0 \<le> mn" using l1 l2 by (simp_all add: mx_def mn_def)
  have den: "0 < mn + 0.05" using mn by simp
  have q0: "0 \<le> q" unfolding q_def using den mx by simp
  have "mx \<le> 21 * mn + 1" using mx mn by simp
  then have "mx + 0.05 \<le> 21 * (mn + 0.05)" by (simp add: distrib_left)
  then have q21: "q \<le> 21" unfolding q_def using den by (simp only: pos_divide_le_eq)
  have "calculateContrastRatio color1 color2 = Some (toFixed2 q)"
    unfolding q_def mx_def mn_def by (rule calculateContrastRatio_luminances[OF l1(1) l2(1) l1(2) l2(2)])
  then show thesis using that toFixed2_le[OF q0 q21] by blast
qed

lemma calculateContrastRatio_sym:
  "calculateContrastRatio a b = calculateContrastRatio b a"
  by (cases "getLuminance a"; cases "getLuminance b")
    (simp_all add: calculateContrastRatio_def max.commute min.commute)

lemma getLuminance_black: "getLuminance ''#000000'' = Some 0"
  by (rule trans[OF getLuminance_channels[of _ 0 0 0]]) (code_simp, simp add: linearize_def)

lemma getLuminance_white: "getLuminance ''#FFFFFF'' = Some 1"
  by (rule trans[OF getLuminance_channels[of _ 255 255 255]]) (code_simp, simp add: linearize_def)

lemma contrast_black_white: "calculateContrastRatio ''#000000'' ''#FFFFFF'' = Some 21"
  by (simp add: calculateContrastRatio_luminances[OF getLuminance_black getLuminance_white] toFixed2_def)


lemma powr_12_5:
  fixes y :: real
  assumes "0 < y"
  shows "(y powr 2.4) ^ 5 = y ^ 12"
proof -
  have "(y powr 2.4) ^ 5 = (y powr 2.4) powr (real 5)"
    by (rule powr_realpow[symmetric]) (use assms in simp)
  also have "\<dots> = y powr (2.4 * real 5)" by (rule powr_powr)
  also have "2.4 * real 5 = real 12" by simp
  also have "y powr (real 12) = y ^ 12" by (rule powr_realpow[OF assms])
  finally show ?thesis .
qed

lemma linearize_89:
  "0.09975 \<le> linearize (89 / 255)" "linearize (89 / 255) < 0.10025"
proof -
  define y :: real where "y = (89 / 255 + 0.055) / 1.055"
  have y: "0 < y" by (simp add: y_def)
  have l: "linearize (89 / 255) = y powr 2.4" by (simp add: linearize_def y_def)
  have p: "(y powr 2.4) ^ 5 = y ^ 12" by (rule powr_12_5[OF y])
  have "(0.09975 :: real) ^ 5 \<le> y ^ 12" by (simp add: y_def power_divide)
  then have "(0.09975 :: real) ^ 5 \<le> (y powr 2.4) ^ 5" by (simp only: p)
  then have "0.09975 \<le> y powr 2.4" by (rule power_le_imp_le_base[where n = 4, simplified]) simp
  then show "0.09975 \<le> linearize (89 / 255)" by (simp only: l)
  have "y ^ 12 < (0.10025 :: real) ^ 5" by (simp add: y_def power_divide)
  then have "(y powr 2.4) ^ 5 < (0.10025 :: real) ^ 5" by (simp only: p)
  then have "y powr 2.4 < 0.10025" by (rule power_less_imp_less_base) simp
  then show "linearize (89 / 255) < 0.10025" by (simp only: l)
qed

lemma getLuminance_grey: "getLuminance ''#595959'' = Some (linearize (89 / 255))"
  by (rule trans[OF getLuminance_channels[of _ 89 89 89]]) (code_simp, simp)

lemma contrast_grey_black: "calculateContrastRatio ''#595959'' ''#000000'' = Some 3"
proof -
  define L where "L = linearize (89 / 255)"
  have L: "0.09975 \<le> L" "L < 0.10025" using linearize_89 by (simp_all add: L_def)
  have L0: "0 \<le> L" using L(1) by simp
  have "calculateContrastRatio ''#595959'' ''#000000''
      = Some (toFixed2 ((max L 0 + 0.05) / (min L 0 + 0.05)))"
    using calculateContrastRatio_luminances[OF getLuminance_grey getLuminance_black] L0
    by (simp add: L_def)
  also have "(max L 0 + 0.05) / (min L 0 + 0.05) = 20 * L + 1"
    using L0 by (simp add: max_def min_def field_simps)
  also have "toFixed2 (20 * L + 1) = 3"
  proof -
    have "\<lfloor>(20 * L + 1) * 100 + 1/2\<rfloor> = 300"
      using L by (intro floor_unique) simp_all
    then show ?thesis using L0 by (simp add: toFixed2_def)
  qed
  finally show ?thesis .
qed

lemma valid_grey_black: "isValidHexColor ''#595959'' \<and> isValidHexColor ''#000000''"
  by code_simp

lemma valid_black_white: "isValidHexColor ''#000000'' \<and> isValidHexColor ''#FFFFFF''"
  by code_simp

text \<open>
  Claim C8. \<^verbatim>\<open>calculateContrastRatio\<close> is symmetric in its two colours; between black and
  white it is \<open>21\<close>; and for two valid hex colours it is a number that is at most \<open>21\<close>.
\<close>

theorem calculateContrastRatio_symmetric_max:
  "calculateContrastRatio a b = calculateContrastRatio b a
   \<and> calculateContrastRatio ''#000000'' ''#FFFFFF'' = Some 21
   \<and> (isValidHexColor a \<and> isValidHexColor b \<longrightarrow>
        (\<exists>ratio. calculateContrastRatio a b = Some ratio \<and> ratio \<le> 21))"
proof (intro conjI impI)
  show "calculateContrastRatio a b = calculateContrastRatio b a"
    by (rule calculateContrastRatio_sym)
  show "calculateContrastRatio ''#000000'' ''#FFFFFF'' = Some 21"
    by (rule contrast_black_white)
  assume "isValidHexColor a \<and> isValidHexColor b"
  then obtain ratio where "calculateContrastRatio a b = Some ratio" "ratio \<le> 21"
    using calculateContrastRatio_valid by blast
  then show "\<exists>ratio. calculateContrastRatio a b = Some ratio \<and> ratio \<le> 21" by blast
qed

theorem calculateContrastRatio_symmetric_max_witness:
  "isValidHexColor ''#FFFFFF'' \<and> isValidHexColor ''#000000''
   \<and> calculateContrastRatio ''#FFFFFF'' ''#000000'' = Some 21 \<and> (21::real) \<le> 21"
  using calculateContrastRatio_symmetric_max[of "''#FFFFFF''" "''#000000''"] valid_black_white
  by simp

text \<open>
  Claim C7. For valid hex colours \<open>f\<close> and \<open>b\<close>, \<^verbatim>\<open>checkAccessibility\<close> is true exactly when the
  contrast ratio of \<open>f\<close> and \<open>b\<close> is at least the threshold of the level and the size: \<open>4.5\<close>
  for AA and small, \<open>3.0\<close> for AA and large, \<open>7.0\<close> for AAA and small, \<open>4.5\<close> for AAA and
  large. Black on white passes AA and small; a pair whose ratio is exactly \<open>3.0\<close> passes AA
  and large and fails AA and small.
\<close>

theorem checkAccessibility_thresholds:
  assumes "isValidHexColor f" "isValidHexColor b"
  shows "(\<exists>ratio. calculateContrastRatio f b = Some ratio
            \<and> (checkAccessibility f b level tsize \<longleftrightarrow>
                 ratio \<ge> (case (level, tsize) of
                             (AA, small) \<Rightarrow> 4.5 | (AA, large) \<Rightarrow> 3.0
                           | (AAA, small) \<Rightarrow> 7.0 | (AAA, large) \<Rightarrow> 4.5))
            \<and> (ratio = 3.0 \<longrightarrow>
                 checkAccessibility f b AA large \<and> \<not> checkAccessibility f b AA small))
         \<and> checkAccessibility ''#000000'' ''#FFFFFF'' AA small"
proof -
  from assms obtain ratio where r: "calculateContrastRatio f b = Some ratio"
    by (rule calculateContrastRatio_valid)
  have "checkAccessibility f b level tsize \<longleftrightarrow>
      ratio \<ge> (case (level, tsize) of
                  (AA, small) \<Rightarrow> 4.5 | (AA, large) \<Rightarrow> 3.0
                | (AAA, small) \<Rightarrow> 7.0 | (AAA, large) \<Rightarrow> 4.5)"
    by (cases level; cases tsize) (simp_all add: checkAccessibility_def r WCAG_CONTRAST_RATIOS_def)
  moreover have "ratio = 3.0 \<longrightarrow>
      checkAccessibility f b AA large \<and> \<not> checkAccessibility f b AA small"
    by (simp add: checkAccessibility_def r WCAG_CONTRAST_RATIOS_def)
  moreover have "checkAccessibility ''#000000'' ''#FFFFFF'' AA small"
    by (simp add: checkAccessibility_def contrast_black_white WCAG_CONTRAST_RATIOS_def)
  ultimately show ?thesis using r by blast
qed

theorem checkAccessibility_thresholds_witness:
  "isValidHexColor ''#595959'' \<and> isValidHexColor ''#000000''
   \<and> calculateContrastRatio ''#595959'' ''#000000'' = Some 3
   \<and> checkAccessibility ''#595959'' ''#000000'' AA large
   \<and> \<not> checkAccessibility ''#595959'' ''#000000'' AA small
   \<and> \<not> checkAccessibility ''#595959'' ''#000000'' AAA large"
  using checkAccessibility_thresholds[of "''#595959''" "''#000000''" AAA large]
    valid_grey_black contrast_grey_black
  by simp

end
